theory Spec2Isabelle
  imports Main "HOL-Library.Word" "HOL-Library.Sublist"
begin

unbundle bit_operations_syntax

section \<open>Strings, errors and the flag macros (generic\_fsnotifier.h)\<close>

text \<open>
  A \<^verbatim>\<open>u16string\<close> is a sequence of 16-bit code units.  \<open>u16\<close> writes a literal
  of ASCII characters; the backslash is given by its code unit.
\<close>

type_synonym u16string = "16 word list"

definition u16 :: "string \<Rightarrow> u16string" where
  "u16 s = map of_char s"

definition BACKSLASH :: "16 word" where
  "BACKSLASH = 92"

text \<open>
  The exceptions of the C++ code that derive from \<^verbatim>\<open>std::exception\<close>:
  \<^verbatim>\<open>FileWatcherException\<close> (a \<^verbatim>\<open>runtime_error\<close>) with its message, its
  optional path and its optional error code (the four constructors of the header), and
  the \<^verbatim>\<open>std::out_of_range\<close> that \<^verbatim>\<open>u16string::at\<close> throws.
\<close>

datatype exception =
    FileWatcherException string "u16string option" "32 word option"
  | out_of_range

text \<open>\<^verbatim>\<open>#define IS_SET(flags, flag) (((flags) & (flag)) == (flag))\<close> and
  \<^verbatim>\<open>#define IS_ANY_SET(flags, mask) (((flags) & (mask)) != 0)\<close>.\<close>

definition IS_SET :: "'a::len word \<Rightarrow> 'a word \<Rightarrow> bool" where
  "IS_SET flags flag = ((flags AND flag) = flag)"

definition IS_ANY_SET :: "'a::len word \<Rightarrow> 'a word \<Rightarrow> bool" where
  "IS_ANY_SET flags m = ((flags AND m) \<noteq> 0)"

section \<open>The macOS engine (apple\_fsnotifier.cpp)\<close>

subsection \<open>FSEvents constants\<close>

text \<open>
  The flag bits and the event id \<^verbatim>\<open>kFSEventStreamEventIdSinceNow\<close> come from the
  system header \<^verbatim>\<open>CoreServices/FSEvents.h\<close>; the values are those of the macOS SDK.
\<close>

type_synonym FSEventStreamEventFlags = "32 word"
type_synonym FSEventStreamEventId = "64 word"

definition kFSEventStreamCreateFlagNone :: FSEventStreamEventFlags where
  "kFSEventStreamCreateFlagNone = 0x0"
definition kFSEventStreamEventFlagMustScanSubDirs :: FSEventStreamEventFlags where
  "kFSEventStreamEventFlagMustScanSubDirs = 0x1"
definition kFSEventStreamEventFlagUserDropped :: FSEventStreamEventFlags where
  "kFSEventStreamEventFlagUserDropped = 0x2"
definition kFSEventStreamEventFlagKernelDropped :: FSEventStreamEventFlags where
  "kFSEventStreamEventFlagKernelDropped = 0x4"
definition kFSEventStreamEventFlagEventIdsWrapped :: FSEventStreamEventFlags where
  "kFSEventStreamEventFlagEventIdsWrapped = 0x8"
definition kFSEventStreamEventFlagHistoryDone :: FSEventStreamEventFlags where
  "kFSEventStreamEventFlagHistoryDone = 0x10"
definition kFSEventStreamEventFlagRootChanged :: FSEventStreamEventFlags where
  "kFSEventStreamEventFlagRootChanged = 0x20"
definition kFSEventStreamEventFlagMount :: FSEventStreamEventFlags where
  "kFSEventStreamEventFlagMount = 0x40"
definition kFSEventStreamEventFlagUnmount :: FSEventStreamEventFlags where
  "kFSEventStreamEventFlagUnmount = 0x80"
definition kFSEventStreamEventFlagItemCreated :: FSEventStreamEventFlags where
  "kFSEventStreamEventFlagItemCreated = 0x100"
definition kFSEventStreamEventFlagItemRemoved :: FSEventStreamEventFlags where
  "kFSEventStreamEventFlagItemRemoved = 0x200"
definition kFSEventStreamEventFlagItemInodeMetaMod :: FSEventStreamEventFlags where
  "kFSEventStreamEventFlagItemInodeMetaMod = 0x400"
definition kFSEventStreamEventFlagItemRenamed :: FSEventStreamEventFlags where
  "kFSEventStreamEventFlagItemRenamed = 0x800"
definition kFSEventStreamEventFlagItemModified :: FSEventStreamEventFlags where
  "kFSEventStreamEventFlagItemModified = 0x1000"
definition kFSEventStreamEventFlagItemFinderInfoMod :: FSEventStreamEventFlags where
  "kFSEventStreamEventFlagItemFinderInfoMod = 0x2000"
definition kFSEventStreamEventFlagItemChangeOwner :: FSEventStreamEventFlags where
  "kFSEventStreamEventFlagItemChangeOwner = 0x4000"
definition kFSEventStreamEventFlagItemXattrMod :: FSEventStreamEventFlags where
  "kFSEventStreamEventFlagItemXattrMod = 0x8000"
definition kFSEventStreamEventFlagItemIsFile :: FSEventStreamEventFlags where
  "kFSEventStreamEventFlagItemIsFile = 0x10000"
definition kFSEventStreamEventFlagItemIsDir :: FSEventStreamEventFlags where
  "kFSEventStreamEventFlagItemIsDir = 0x20000"
definition kFSEventStreamEventFlagItemIsSymlink :: FSEventStreamEventFlags where
  "kFSEventStreamEventFlagItemIsSymlink = 0x40000"
definition kFSEventStreamEventFlagOwnEvent :: FSEventStreamEventFlags where
  "kFSEventStreamEventFlagOwnEvent = 0x80000"
definition kFSEventStreamEventFlagItemIsHardlink :: FSEventStreamEventFlags where
  "kFSEventStreamEventFlagItemIsHardlink = 0x100000"
definition kFSEventStreamEventFlagItemIsLastHardlink :: FSEventStreamEventFlags where
  "kFSEventStreamEventFlagItemIsLastHardlink = 0x200000"
definition kFSEventStreamEventFlagItemCloned :: FSEventStreamEventFlags where
  "kFSEventStreamEventFlagItemCloned = 0x400000"

definition kFSEventStreamEventIdSinceNow :: FSEventStreamEventId where
  "kFSEventStreamEventIdSinceNow = 0xFFFFFFFFFFFFFFFF"

text \<open>The list of flags ignored by the implementation (the lines that the source has
  commented out are the flags that are handled).\<close>

definition IGNORED_FLAGS :: FSEventStreamEventFlags where
  "IGNORED_FLAGS = kFSEventStreamCreateFlagNone
     OR kFSEventStreamEventFlagUserDropped
     OR kFSEventStreamEventFlagKernelDropped
     OR kFSEventStreamEventFlagEventIdsWrapped
     OR kFSEventStreamEventFlagHistoryDone
     OR kFSEventStreamEventFlagItemIsFile
     OR kFSEventStreamEventFlagItemIsDir
     OR kFSEventStreamEventFlagItemIsSymlink
     OR kFSEventStreamEventFlagOwnEvent
     OR kFSEventStreamEventFlagItemIsHardlink
     OR kFSEventStreamEventFlagItemIsLastHardlink
     OR kFSEventStreamEventFlagItemCloned"

subsection \<open>Data\<close>

text \<open>
  Modelled from the spec: the header that declares \<^verbatim>\<open>ChangeType\<close>,
  \<^verbatim>\<open>WatchPointState\<close> and the macOS \<^verbatim>\<open>Server\<close> class used by
  apple\_fsnotifier.cpp is not among the sources.  The canonical kinds are those of the
  spec's event taxonomy that the code names, and the age tag of a watch point is
  \<open>NEW\<close> or \<open>HISTORICAL\<close>.
\<close>

datatype ChangeType = CREATED | REMOVED | MODIFIED | INVALIDATED

datatype WatchPointState = NEW | HISTORICAL

text \<open>
  What the worker does that the outside can see, in the order in which it happens: the
  assignment to \<^verbatim>\<open>lastSeenEventId\<close> and the calls of \<^verbatim>\<open>reportChangeEvent\<close>,
  \<^verbatim>\<open>reportOverflow\<close>, \<^verbatim>\<open>reportUnknownEvent\<close> and \<^verbatim>\<open>reportFailure\<close>.
\<close>

datatype action =
    SetLastSeenEventId FSEventStreamEventId
  | ReportChangeEvent ChangeType u16string
  | ReportOverflow u16string
  | ReportUnknownEvent u16string
  | ReportFailure exception

text \<open>One event of a batch handed to the callback: \<^verbatim>\<open>eventPaths[i]\<close> (after
  \<^verbatim>\<open>utf8ToUtf16String\<close>), \<^verbatim>\<open>eventFlags[i]\<close> and \<^verbatim>\<open>eventIds[i]\<close>.\<close>

record fsevent =
  eventPath :: u16string
  eventFlags :: FSEventStreamEventFlags
  eventId :: FSEventStreamEventId

text \<open>An open stream remembers the roots it was created for and the id it starts from.\<close>

record FSEventStream =
  streamPaths :: "u16string list"
  sinceWhen :: FSEventStreamEventId

text \<open>
  Modelled from the spec: the fields of the macOS \<^verbatim>\<open>Server\<close> that
  apple\_fsnotifier.cpp uses (their declaration is not among the sources).
  \<open>watchPoints\<close> is the map from root path to age tag, kept as the list of its entries
  in the container's iteration order (keys occur once); \<open>eventStream\<close> is \<open>None\<close>
  for the null pointer.
\<close>

record Server =
  watchPoints :: "(u16string \<times> WatchPointState) list"
  lastSeenEventId :: FSEventStreamEventId
  finishedProcessingHistoricalEvents :: bool
  eventStream :: "FSEventStream option"

subsection \<open>Looking up the watch point of an event path\<close>

text \<open>\<^verbatim>\<open>path.at(i)\<close>: throws \<^verbatim>\<open>std::out_of_range\<close> when \<open>i\<close> is not an index.\<close>

definition at :: "u16string \<Rightarrow> nat \<Rightarrow> exception + 16 word" where
  "at s i = (if i < length s then Inr (s ! i) else Inl out_of_range)"

text \<open>\<^verbatim>\<open>path.compare(0, n, prefix) == 0\<close>: the first \<open>n\<close> units of \<open>path\<close> (fewer when
  \<open>path\<close> is shorter) are exactly \<open>prefix\<close>.\<close>

definition compare0 :: "u16string \<Rightarrow> nat \<Rightarrow> u16string \<Rightarrow> bool" where
  "compare0 p n pre = (take n p = pre)"

text \<open>
  \<^verbatim>\<open>Server::getWatchPointState\<close>.  The second operand of the test is written
  \<^verbatim>\<open>path.at(prefix.size() == '/')\<close> in the source: the index is the truth value of
  \<^verbatim>\<open>prefix.size() == '/'\<close> (1 when the prefix has 47 units, else 0), and the unit read
  there counts as true when it is not zero.
\<close>

fun getWatchPointState ::
  "(u16string \<times> WatchPointState) list \<Rightarrow> u16string \<Rightarrow> exception + WatchPointState" where
  "getWatchPointState [] p =
     Inl (FileWatcherException ''Couldn't find watch point for path'' (Some p) None)"
| "getWatchPointState ((pre, st) # rest) p =
     (if compare0 p (length pre) pre then
        (if length pre = length p then Inr st
         else (case at p (if length pre = 47 then 1 else 0) of
                 Inl ex \<Rightarrow> Inl ex
               | Inr c \<Rightarrow> if c \<noteq> 0 then Inr st else getWatchPointState rest p))
      else getWatchPointState rest p)"

subsection \<open>Normalising one event\<close>

text \<open>\<^verbatim>\<open>Server::handleEvent\<close>: the one report made for an event that is not ignored.\<close>

definition handleEvent :: "u16string \<Rightarrow> FSEventStreamEventFlags \<Rightarrow> action" where
  "handleEvent p flags =
     (if IS_SET flags kFSEventStreamEventFlagMustScanSubDirs then ReportOverflow p
      else if IS_SET flags (kFSEventStreamEventFlagMount OR kFSEventStreamEventFlagUnmount)
        then ReportChangeEvent INVALIDATED p
      else if IS_SET flags kFSEventStreamEventFlagItemRenamed then
        (if IS_SET flags kFSEventStreamEventFlagItemCreated
         then ReportChangeEvent REMOVED p
         else ReportChangeEvent CREATED p)
      else if IS_SET flags kFSEventStreamEventFlagItemModified
        then ReportChangeEvent MODIFIED p
      else if IS_SET flags kFSEventStreamEventFlagItemRemoved
        then ReportChangeEvent REMOVED p
      else if IS_SET flags (kFSEventStreamEventFlagItemInodeMetaMod
                 OR kFSEventStreamEventFlagItemFinderInfoMod
                 OR kFSEventStreamEventFlagItemChangeOwner
                 OR kFSEventStreamEventFlagItemXattrMod)
        then ReportChangeEvent MODIFIED p
      else if IS_SET flags kFSEventStreamEventFlagItemCreated
        then ReportChangeEvent CREATED p
      else ReportUnknownEvent p)"

subsection \<open>Handling a batch of events\<close>

text \<open>The loop over the watch points on \<^verbatim>\<open>kFSEventStreamEventFlagHistoryDone\<close>.\<close>

definition markHistorical ::
  "(u16string \<times> WatchPointState) list \<Rightarrow> (u16string \<times> WatchPointState) list" where
  "markHistorical wps = map (\<lambda>(p, st). (p, if st = NEW then HISTORICAL else st)) wps"

text \<open>The end of the loop body: an event whose flags lie within the ignored set is
  dropped, any other is normalised by \<open>handleEvent\<close>.\<close>

definition dispatchEvent :: "fsevent \<Rightarrow> action list" where
  "dispatchEvent e =
     (if (eventFlags e AND NOT IGNORED_FLAGS) = kFSEventStreamCreateFlagNone then []
      else [handleEvent (eventPath e) (eventFlags e)])"

text \<open>
  One iteration of the loop of \<^verbatim>\<open>Server::handleEvents\<close>: the exception that leaves
  the loop (if any), the server afterwards, and what the iteration did, in order.
\<close>

definition handleEventsStep ::
  "Server \<Rightarrow> fsevent \<Rightarrow> exception option \<times> Server \<times> action list" where
  "handleEventsStep s e =
     (let s1 = s\<lparr>lastSeenEventId := eventId e\<rparr>;
          upd = SetLastSeenEventId (eventId e)
      in if IS_SET (eventFlags e) kFSEventStreamEventFlagHistoryDone then
           (None,
            s1\<lparr>watchPoints := markHistorical (watchPoints s1),
               finishedProcessingHistoricalEvents := True\<rparr>,
            [upd])
         else if eventId e = 0 \<and> IS_SET (eventFlags e) kFSEventStreamEventFlagRootChanged then
           (None, s1, [upd, ReportChangeEvent INVALIDATED (eventPath e)])
         else if \<not> finishedProcessingHistoricalEvents s1 then
           (case getWatchPointState (watchPoints s1) (eventPath e) of
              Inl ex \<Rightarrow> (Some ex, s1, [upd])
            | Inr st \<Rightarrow>
                if st = NEW then (None, s1, [upd])
                else (None, s1, upd # dispatchEvent e))
         else (None, s1, upd # dispatchEvent e))"

fun handleEventsLoop ::
  "Server \<Rightarrow> fsevent list \<Rightarrow> exception option \<times> Server \<times> action list" where
  "handleEventsLoop s [] = (None, s, [])"
| "handleEventsLoop s (e # es) =
     (case handleEventsStep s e of
        (Some ex, s1, acts) \<Rightarrow> (Some ex, s1, acts)
      | (None, s1, acts) \<Rightarrow>
          (case handleEventsLoop s1 es of (r, s2, acts') \<Rightarrow> (r, s2, acts @ acts')))"

text \<open>\<^verbatim>\<open>Server::handleEvents\<close>: the loop inside \<^verbatim>\<open>try\<close>, and the handler that
  reports the failure.\<close>

definition handleEvents :: "Server \<Rightarrow> fsevent list \<Rightarrow> Server \<times> action list" where
  "handleEvents s evs =
     (case handleEventsLoop s evs of
        (None, s1, acts) \<Rightarrow> (s1, acts)
      | (Some ex, s1, acts) \<Rightarrow> (s1, acts @ [ReportFailure ex]))"

text \<open>A run: the batches that the event stream hands to the callback, one after the other.\<close>

fun deliver :: "Server \<Rightarrow> fsevent list list \<Rightarrow> Server \<times> action list" where
  "deliver s [] = (s, [])"
| "deliver s (b # bs) =
     (case handleEvents s b of
        (s1, acts) \<Rightarrow> (case deliver s1 bs of (s2, acts') \<Rightarrow> (s2, acts @ acts')))"

text \<open>The values that \<^verbatim>\<open>lastSeenEventId\<close> takes during a run, in order.\<close>

fun updates :: "action list \<Rightarrow> FSEventStreamEventId list" where
  "updates [] = []"
| "updates (SetLastSeenEventId i # acts) = i # updates acts"
| "updates (a # acts) = updates acts"

fun isReport :: "action \<Rightarrow> bool" where
  "isReport (SetLastSeenEventId i) = False"
| "isReport a = True"

text \<open>The report of the handler of \<^verbatim>\<open>Server::handleEvents\<close>: an exception left
  the loop of a batch.\<close>

fun isFailure :: "action \<Rightarrow> bool" where
  "isFailure (ReportFailure ex) = True"
| "isFailure a = False"

subsection \<open>The map of watch points\<close>

text \<open>\<^verbatim>\<open>find\<close> is \<open>map_of\<close>; \<^verbatim>\<open>emplace\<close> adds an entry unless the key is there;
  \<^verbatim>\<open>erase(key)\<close> removes the entry of the key and returns how many it removed.
  The list stands for the container in some iteration order: \<open>emplace\<close> puts the new
  entry last, where the real container may put it anywhere.  No property below depends
  on the order of the entries.\<close>

definition emplace :: "'k \<Rightarrow> 'v \<Rightarrow> ('k \<times> 'v) list \<Rightarrow> ('k \<times> 'v) list" where
  "emplace k v m = (if map_of m k \<noteq> None then m else m @ [(k, v)])"

definition erase :: "'k \<Rightarrow> ('k \<times> 'v) list \<Rightarrow> ('k \<times> 'v) list" where
  "erase k m = filter (\<lambda>e. fst e \<noteq> k) m"

definition erase_count :: "'k \<Rightarrow> ('k \<times> 'v) list \<Rightarrow> nat" where
  "erase_count k m = (if map_of m k = None then 0 else 1)"

subsection \<open>Opening and closing the event stream\<close>

text \<open>
  What Core Services answers during one command: the batches still pending in the
  stream, which \<^verbatim>\<open>FSEventStreamFlushSync\<close> hands to the callback before it returns,
  and whether \<^verbatim>\<open>CFArrayCreateMutable\<close>, \<^verbatim>\<open>CFStringCreateWithCharacters\<close> (for a
  path) and \<^verbatim>\<open>FSEventStreamCreate\<close> return null.
\<close>

record CoreServices =
  pendingEvents :: "fsevent list list"
  arrayCreateFails :: bool
  stringCreateFails :: "u16string \<Rightarrow> bool"
  streamCreateFails :: bool

text \<open>\<^verbatim>\<open>Server::closeEventStream\<close>.  The reports made while flushing belong to event
  dispatch and are not part of the command's result.\<close>

definition closeEventStream :: "CoreServices \<Rightarrow> Server \<Rightarrow> Server" where
  "closeEventStream cs s =
     (if eventStream s = None then s
      else (fst (deliver s (pendingEvents cs)))\<lparr>eventStream := None\<rparr>)"

text \<open>\<^verbatim>\<open>Server::openEventStream\<close>: the exception thrown (if any) and the server
  afterwards.\<close>

definition openEventStream :: "CoreServices \<Rightarrow> Server \<Rightarrow> exception option \<times> Server" where
  "openEventStream cs s =
     (if watchPoints s = [] then (None, s)
      else if arrayCreateFails cs then
        (Some (FileWatcherException ''Could not allocate array to store roots to watch'' None None), s)
      else
        (case find (stringCreateFails cs) (map fst (watchPoints s)) of
           Some p \<Rightarrow>
             (Some (FileWatcherException ''Could not allocate CFString for path'' (Some p) None), s)
         | None \<Rightarrow>
             (let s1 = s\<lparr>finishedProcessingHistoricalEvents :=
                          (lastSeenEventId s = kFSEventStreamEventIdSinceNow)\<rparr>
              in if streamCreateFails cs then
                   (Some (FileWatcherException ''Couldn't update event stream'' None None), s1)
                 else
                   (None, s1\<lparr>eventStream :=
                               Some \<lparr>streamPaths = map fst (watchPoints s1),
                                     sinceWhen = lastSeenEventId s1\<rparr>\<rparr>))))"

subsection \<open>Registering and unregistering paths\<close>

text \<open>The loop of \<^verbatim>\<open>Server::registerPaths\<close>.\<close>

fun registerLoop :: "Server \<Rightarrow> u16string list \<Rightarrow> exception option \<times> Server" where
  "registerLoop s [] = (None, s)"
| "registerLoop s (p # ps) =
     (if map_of (watchPoints s) p \<noteq> None then
        (Some (FileWatcherException ''Already watching path'' (Some p) None), s)
      else
        registerLoop
          (s\<lparr>watchPoints :=
               emplace p
                 (if lastSeenEventId s = kFSEventStreamEventIdSinceNow then HISTORICAL else NEW)
                 (watchPoints s)\<rparr>)
          ps)"

text \<open>The command that \<^verbatim>\<open>Server::registerPaths\<close> runs on the run loop: the exception
  it ends with or the value it returns, and the server afterwards.\<close>

definition registerPaths ::
  "CoreServices \<Rightarrow> Server \<Rightarrow> u16string list \<Rightarrow> (exception + bool) \<times> Server" where
  "registerPaths cs s paths =
     (case registerLoop (closeEventStream cs s) paths of
        (Some ex, s1) \<Rightarrow> (Inl ex, s1)
      | (None, s1) \<Rightarrow>
          (case openEventStream cs s1 of
             (Some ex, s2) \<Rightarrow> (Inl ex, s2)
           | (None, s2) \<Rightarrow> (Inr True, s2)))"

text \<open>The loop of \<^verbatim>\<open>Server::unregisterPaths\<close>, with its variable \<^verbatim>\<open>success\<close>.\<close>

fun unregisterLoop :: "Server \<Rightarrow> u16string list \<Rightarrow> bool \<Rightarrow> Server \<times> bool" where
  "unregisterLoop s [] success = (s, success)"
| "unregisterLoop s (p # ps) success =
     unregisterLoop
       (s\<lparr>watchPoints := erase p (watchPoints s)\<rparr>)
       ps
       (if erase_count p (watchPoints s) = 0 then False else success)"

definition unregisterPaths ::
  "CoreServices \<Rightarrow> Server \<Rightarrow> u16string list \<Rightarrow> (exception + bool) \<times> Server" where
  "unregisterPaths cs s paths =
     (case unregisterLoop (closeEventStream cs s) paths True of
        (s1, success) \<Rightarrow>
          (case openEventStream cs s1 of
             (Some ex, s2) \<Rightarrow> (Inl ex, s2)
           | (None, s2) \<Rightarrow> (Inr success, s2)))"

text \<open>
  The predicate that the specification gives for the lookup of a watch point: the path
  equals the prefix, or starts with the prefix followed by \<open>/\<close>.
\<close>

definition spec_watchPointMatches :: "u16string \<Rightarrow> u16string \<Rightarrow> bool" where
  "spec_watchPointMatches pre p = (p = pre \<or> take (length pre + 1) p = pre @ [47])"

section \<open>The Windows engine (win\_fsnotifier.cpp)\<close>

subsection \<open>Constants and data\<close>

text \<open>The kind codes of generic\_fsnotifier.h (the values of
  \<^verbatim>\<open>FileWatcherCallback.Type\<close>).\<close>

definition FILE_EVENT_CREATED :: int where "FILE_EVENT_CREATED = 0"
definition FILE_EVENT_REMOVED :: int where "FILE_EVENT_REMOVED = 1"
definition FILE_EVENT_MODIFIED :: int where "FILE_EVENT_MODIFIED = 2"
definition FILE_EVENT_INVALIDATE :: int where "FILE_EVENT_INVALIDATE = 3"
definition FILE_EVENT_UNKNOWN :: int where "FILE_EVENT_UNKNOWN = 4"

text \<open>Win32 error codes (winerror.h) and change actions (winnt.h).\<close>

type_synonym DWORD = "32 word"

definition ERROR_SUCCESS :: DWORD where "ERROR_SUCCESS = 0"
definition ERROR_ACCESS_DENIED :: DWORD where "ERROR_ACCESS_DENIED = 5"
definition ERROR_OPERATION_ABORTED :: DWORD where "ERROR_OPERATION_ABORTED = 995"

definition FILE_ACTION_ADDED :: DWORD where "FILE_ACTION_ADDED = 1"
definition FILE_ACTION_REMOVED :: DWORD where "FILE_ACTION_REMOVED = 2"
definition FILE_ACTION_MODIFIED :: DWORD where "FILE_ACTION_MODIFIED = 3"
definition FILE_ACTION_RENAMED_OLD_NAME :: DWORD where "FILE_ACTION_RENAMED_OLD_NAME = 4"
definition FILE_ACTION_RENAMED_NEW_NAME :: DWORD where "FILE_ACTION_RENAMED_NEW_NAME = 5"

text \<open>\<^verbatim>\<open>enum WatchPointStatus\<close> of generic\_fsnotifier.h.\<close>

datatype WatchPointStatus = NOT_LISTENING | LISTENING | CANCELLED | FINISHED

text \<open>
  Modelled from the spec: win\_fsnotifier.h, which declares \<^verbatim>\<open>ListenResult\<close>, the
  Windows \<^verbatim>\<open>WatchPoint\<close> and the Windows \<^verbatim>\<open>Server\<close>, is not among the sources.
  A watch point has its root path and its status (the directory handle, the buffer and
  the overlapped block are resources of the operating system); the server has the map
  from root path to watch point and the flag \<^verbatim>\<open>terminated\<close>.
\<close>

datatype ListenResult = SUCCESS | DELETED

record WatchPoint =
  path :: u16string
  status :: WatchPointStatus

record win_Server =
  win_watchPoints :: "(u16string \<times> WatchPoint) list"
  terminated :: bool

text \<open>One entry of the buffer filled by \<^verbatim>\<open>ReadDirectoryChangesW\<close>: the action and the
  file name (\<^verbatim>\<open>FileNameLength / sizeof(wchar_t)\<close> units).  The entries are chained by
  \<^verbatim>\<open>NextEntryOffset\<close>; the chain is the list of entries after the first.\<close>

record FILE_NOTIFY_INFORMATION =
  Action :: DWORD
  FileName :: u16string

text \<open>The calls of \<^verbatim>\<open>reportChange\<close> and \<^verbatim>\<open>reportError\<close>.\<close>

datatype callback =
    ReportChange int u16string
  | ReportError exception

text \<open>
  What Windows answers during one operation: the error of \<^verbatim>\<open>CreateFileW\<close> (\<open>None\<close>
  when it returns a handle), the error of \<^verbatim>\<open>ReadDirectoryChangesW\<close> (\<open>None\<close> when
  it succeeds), and what \<^verbatim>\<open>isValidDirectory\<close> finds when the completion routine asks
  and when \<^verbatim>\<open>listen\<close> asks.
\<close>

record Win32 =
  createFileError :: "DWORD option"
  readDirectoryChangesError :: "DWORD option"
  validDirectory :: bool
  validDirectoryOnListen :: bool

subsection \<open>Long paths\<close>

definition isAbsoluteLocalPath :: "u16string \<Rightarrow> bool" where
  "isAbsoluteLocalPath p =
     (if length p < 3 then False
      else ((97 \<le> p ! 0 \<and> p ! 0 \<le> 122) \<or> (65 \<le> p ! 0 \<and> p ! 0 \<le> 90))
           \<and> p ! 1 = 58
           \<and> p ! 2 = BACKSLASH)"

definition isAbsoluteUncPath :: "u16string \<Rightarrow> bool" where
  "isAbsoluteUncPath p =
     (if length p < 3 then False
      else p ! 0 = BACKSLASH \<and> p ! 1 = BACKSLASH)"

text \<open>The two prefixes: backslash, backslash, question mark, backslash; and the same
  followed by \<open>UNC\<close> and a backslash.\<close>

definition LONG_PREFIX :: u16string where
  "LONG_PREFIX = [BACKSLASH, BACKSLASH, 63, BACKSLASH]"

definition UNC_LONG_PREFIX :: u16string where
  "UNC_LONG_PREFIX = [BACKSLASH, BACKSLASH, 63, BACKSLASH, 85, 78, 67, BACKSLASH]"

definition isLongPath :: "u16string \<Rightarrow> bool" where
  "isLongPath p = (length p \<ge> 4 \<and> take 4 p = LONG_PREFIX)"

definition isUncLongPath :: "u16string \<Rightarrow> bool" where
  "isUncLongPath p = (length p \<ge> 8 \<and> take 8 p = UNC_LONG_PREFIX)"

definition convertToLongPathIfNeeded :: "u16string \<Rightarrow> u16string" where
  "convertToLongPathIfNeeded p =
     (if length p \<le> 240 then p
      else if isLongPath p then p
      else if isAbsoluteLocalPath p then LONG_PREFIX @ p
      else if isAbsoluteUncPath p then UNC_LONG_PREFIX @ drop 2 p
      else p)"

subsection \<open>Reporting one change\<close>

text \<open>The first half of \<^verbatim>\<open>Server::handleEvent\<close>: the path that is reported for an
  entry of the watch point with the given root.\<close>

definition changedPath :: "u16string \<Rightarrow> FILE_NOTIFY_INFORMATION \<Rightarrow> u16string" where
  "changedPath root info =
     (let cp0 = (if FileName info \<noteq> [] then BACKSLASH # FileName info else FileName info);
          cp = root @ cp0
      in if isLongPath cp then
           (if isUncLongPath cp then [BACKSLASH, BACKSLASH] @ drop 8 cp
            else drop 4 cp)
         else cp)"

text \<open>The reverse transform that \<^verbatim>\<open>Server::handleEvent\<close> applies, taken on its own:
  the user-facing form of a path.\<close>

definition userFacingPath :: "u16string \<Rightarrow> u16string" where
  "userFacingPath p =
     (if isLongPath p then
        (if isUncLongPath p then [BACKSLASH, BACKSLASH] @ drop 8 p
         else drop 4 p)
      else p)"

text \<open>The second half: the kind code of the action.\<close>

definition eventType :: "DWORD \<Rightarrow> int" where
  "eventType a =
     (if a = FILE_ACTION_ADDED \<or> a = FILE_ACTION_RENAMED_NEW_NAME then FILE_EVENT_CREATED
      else if a = FILE_ACTION_REMOVED \<or> a = FILE_ACTION_RENAMED_OLD_NAME then FILE_EVENT_REMOVED
      else if a = FILE_ACTION_MODIFIED then FILE_EVENT_MODIFIED
      else FILE_EVENT_UNKNOWN)"

definition win_handleEvent :: "u16string \<Rightarrow> FILE_NOTIFY_INFORMATION \<Rightarrow> callback" where
  "win_handleEvent root info = ReportChange (eventType (Action info)) (changedPath root info)"

subsection \<open>The watch point\<close>

text \<open>\<^verbatim>\<open>WatchPoint::listen\<close>: the result or the exception, and the watch point
  afterwards.\<close>

definition listen :: "Win32 \<Rightarrow> WatchPoint \<Rightarrow> (exception + ListenResult) \<times> WatchPoint" where
  "listen os wp =
     (case readDirectoryChangesError os of
        None \<Rightarrow> (Inr SUCCESS, wp\<lparr>status := LISTENING\<rparr>)
      | Some lastError \<Rightarrow>
          (if lastError = ERROR_ACCESS_DENIED \<and> \<not> validDirectoryOnListen os
           then (Inr DELETED, wp\<lparr>status := FINISHED\<rparr>)
           else (Inl (FileWatcherException ''Couldn't start watching'' (Some (path wp)) (Some lastError)),
                 wp\<lparr>status := FINISHED\<rparr>)))"

text \<open>The constructor \<^verbatim>\<open>WatchPoint::WatchPoint\<close>.\<close>

definition new_WatchPoint :: "Win32 \<Rightarrow> u16string \<Rightarrow> exception + WatchPoint" where
  "new_WatchPoint os p =
     (case createFileError os of
        Some lastError \<Rightarrow> Inl (FileWatcherException ''Couldn't add watch'' (Some p) (Some lastError))
      | None \<Rightarrow>
          (case listen os \<lparr>path = p, status = NOT_LISTENING\<rparr> of
             (Inr SUCCESS, wp) \<Rightarrow> Inr wp
           | (Inr DELETED, wp) \<Rightarrow>
               Inl (FileWatcherException
                      ''Couldn't start watching because path is not a directory'' (Some p) None)
           | (Inl ex, wp) \<Rightarrow> Inl ex))"

subsection \<open>The completion routine\<close>

text \<open>
  \<^verbatim>\<open>Server::handleEvents\<close> of the Windows engine, for the server's flag
  \<^verbatim>\<open>terminated\<close>, a watch point, the error code, the buffer (its first entry and the
  entries chained after it) and the number of bytes transferred: the watch point
  afterwards and the callbacks made, in order.  An exception thrown inside \<^verbatim>\<open>try\<close>
  ends in \<^verbatim>\<open>reportError\<close>.
\<close>

definition win_handleEvents ::
  "bool \<Rightarrow> Win32 \<Rightarrow> WatchPoint \<Rightarrow> DWORD
     \<Rightarrow> FILE_NOTIFY_INFORMATION \<times> FILE_NOTIFY_INFORMATION list \<Rightarrow> DWORD
     \<Rightarrow> WatchPoint \<times> callback list" where
  "win_handleEvents term os wp errorCode buffer bytesTransferred =
     (if errorCode \<noteq> ERROR_SUCCESS
         \<and> \<not> (errorCode = ERROR_ACCESS_DENIED \<and> \<not> validDirectory os) then
        (wp, [ReportError (FileWatcherException ''Error received when handling events''
                             (Some (path wp)) (Some errorCode))])
      else
        (let removed = (if errorCode \<noteq> ERROR_SUCCESS
                        then [ReportChange FILE_EVENT_REMOVED (path wp)] else [])
         in if term then (wp, removed)
            else if bytesTransferred = 0 then
              (wp\<lparr>status := FINISHED\<rparr>,
               removed @ [ReportChange FILE_EVENT_INVALIDATE (path wp)])
            else
              (let changes = map (win_handleEvent (path wp)) (fst buffer # snd buffer) in
               case listen os wp of
                 (Inr SUCCESS, wp1) \<Rightarrow> (wp1, removed @ changes)
               | (Inr DELETED, wp1) \<Rightarrow>
                   (wp1, removed @ changes @ [ReportChange FILE_EVENT_REMOVED (path wp)])
               | (Inl ex, wp1) \<Rightarrow> (wp1, removed @ changes @ [ReportError ex]))))"

text \<open>\<^verbatim>\<open>WatchPoint::handleEventsInBuffer\<close>, the body of the completion routine.\<close>

definition handleEventsInBuffer ::
  "bool \<Rightarrow> Win32 \<Rightarrow> WatchPoint \<Rightarrow> DWORD
     \<Rightarrow> FILE_NOTIFY_INFORMATION \<times> FILE_NOTIFY_INFORMATION list \<Rightarrow> DWORD
     \<Rightarrow> WatchPoint \<times> callback list" where
  "handleEventsInBuffer term os wp errorCode buffer bytesTransferred =
     (if errorCode = ERROR_OPERATION_ABORTED then (wp\<lparr>status := FINISHED\<rparr>, [])
      else if status wp \<noteq> LISTENING then (wp, [])
      else win_handleEvents term os (wp\<lparr>status := NOT_LISTENING\<rparr>)
             errorCode buffer bytesTransferred)"

subsection \<open>Registering and unregistering a path\<close>

text \<open>
  \<^verbatim>\<open>Server::registerPath\<close>: the exception thrown (if any) and the server afterwards.
  The watch point that is erased has status \<open>FINISHED\<close>, so its destructor cancels
  nothing; \<^verbatim>\<open>emplace\<close> adds nothing when the constructor throws.
\<close>

definition registerPath :: "Win32 \<Rightarrow> win_Server \<Rightarrow> u16string \<Rightarrow> exception option \<times> win_Server" where
  "registerPath os s p =
     (let longPath = convertToLongPathIfNeeded p in
      case (case map_of (win_watchPoints s) longPath of
              Some wp \<Rightarrow>
                if status wp \<noteq> FINISHED
                then Inl (FileWatcherException ''Already watching path'' (Some p) None)
                else Inr (s\<lparr>win_watchPoints := erase longPath (win_watchPoints s)\<rparr>)
            | None \<Rightarrow> Inr s) of
        Inl ex \<Rightarrow> (Some ex, s)
      | Inr s1 \<Rightarrow>
          (case new_WatchPoint os longPath of
             Inl ex \<Rightarrow> (Some ex, s1)
           | Inr wp \<Rightarrow>
               (None, s1\<lparr>win_watchPoints := emplace longPath wp (win_watchPoints s1)\<rparr>)))"

text \<open>
  \<^verbatim>\<open>Server::unregisterPath\<close> returns nothing; a path that is not watched is logged.
  (Erasing destroys the watch point, whose destructor cancels its pending read; the
  completions that the operating system then delivers are handled by
  \<open>handleEventsInBuffer\<close>.)
\<close>

definition unregisterPath :: "win_Server \<Rightarrow> u16string \<Rightarrow> win_Server" where
  "unregisterPath s p =
     (let longPath = convertToLongPathIfNeeded p in
      if erase_count longPath (win_watchPoints s) = 0 then s
      else s\<lparr>win_watchPoints := erase longPath (win_watchPoints s)\<rparr>)"

section \<open>Commands (generic\_fsnotifier.h)\<close>

text \<open>
  What leaves a call of the virtual \<^verbatim>\<open>perform\<close>: nothing (it returns), an exception
  object of a class derived from \<^verbatim>\<open>std::exception\<close>, or an object of any other
  type, which the handler \<^verbatim>\<open>catch (const exception&)\<close> does not match.
\<close>

datatype thrown = StdException exception | OtherObject

text \<open>The command's \<^verbatim>\<open>failure\<close> slot (\<open>None\<close> for the null \<^verbatim>\<open>exception_ptr\<close>) and
  the number of times \<^verbatim>\<open>executed.notify_all()\<close> has been called.\<close>

record Command =
  failure :: "exception option"
  executedNotified :: nat

text \<open>\<^verbatim>\<open>Command::execute\<close>, for the command's \<^verbatim>\<open>perform\<close>: what propagates out of
  the call (if anything), the command and the server afterwards.\<close>

definition execute ::
  "('srv \<Rightarrow> thrown option \<times> 'srv) \<Rightarrow> 'srv \<Rightarrow> Command \<Rightarrow> thrown option \<times> Command \<times> 'srv" where
  "execute perform server c =
     (case perform server of
        (None, server1) \<Rightarrow>
          (None, c\<lparr>executedNotified := executedNotified c + 1\<rparr>, server1)
      | (Some (StdException ex), server1) \<Rightarrow>
          (None, c\<lparr>failure := Some ex, executedNotified := executedNotified c + 1\<rparr>, server1)
      | (Some OtherObject, server1) \<Rightarrow> (Some OtherObject, c, server1))"

text \<open>
  \<^verbatim>\<open>perform\<close> of the commands of the header (\<^verbatim>\<open>RegisterPathsCommand\<close>,
  \<^verbatim>\<open>UnregisterPathsCommand\<close>, \<^verbatim>\<open>TerminateCommand\<close>): each calls one operation of the
  server, and what leaves \<^verbatim>\<open>perform\<close> is what leaves that operation.  Every
  \<^verbatim>\<open>throw\<close> of the sources throws a \<^verbatim>\<open>FileWatcherException\<close>.
\<close>

definition performOf ::
  "('srv \<Rightarrow> (exception + 'a) \<times> 'srv) \<Rightarrow> 'srv \<Rightarrow> thrown option \<times> 'srv" where
  "performOf operation server =
     (case operation server of
        (Inl ex, server1) \<Rightarrow> (Some (StdException ex), server1)
      | (Inr v, server1) \<Rightarrow> (None, server1))"

section \<open>Properties of the macOS engine\<close>

lemmas fsevent_flag_defs =
  kFSEventStreamCreateFlagNone_def kFSEventStreamEventFlagMustScanSubDirs_def
  kFSEventStreamEventFlagUserDropped_def kFSEventStreamEventFlagKernelDropped_def
  kFSEventStreamEventFlagEventIdsWrapped_def kFSEventStreamEventFlagHistoryDone_def
  kFSEventStreamEventFlagRootChanged_def kFSEventStreamEventFlagMount_def
  kFSEventStreamEventFlagUnmount_def kFSEventStreamEventFlagItemCreated_def
  kFSEventStreamEventFlagItemRemoved_def kFSEventStreamEventFlagItemInodeMetaMod_def
  kFSEventStreamEventFlagItemRenamed_def kFSEventStreamEventFlagItemModified_def
  kFSEventStreamEventFlagItemFinderInfoMod_def kFSEventStreamEventFlagItemChangeOwner_def
  kFSEventStreamEventFlagItemXattrMod_def kFSEventStreamEventFlagItemIsFile_def
  kFSEventStreamEventFlagItemIsDir_def kFSEventStreamEventFlagItemIsSymlink_def
  kFSEventStreamEventFlagOwnEvent_def kFSEventStreamEventFlagItemIsHardlink_def
  kFSEventStreamEventFlagItemIsLastHardlink_def kFSEventStreamEventFlagItemCloned_def

subsection \<open>Normalisation table\<close>

text \<open>
  C1.  The table of the specification gives INVALIDATED for a flag set containing
  \<open>Mount\<close> or \<open>Unmount\<close>, and MODIFIED for one containing any of \<open>InodeMetaMod\<close>,
  \<open>FinderInfoMod\<close>, \<open>ChangeOwner\<close>, \<open>XattrMod\<close>.  The code tests both groups with
  \<^verbatim>\<open>IS_SET\<close>, which asks for all bits of the mask: an event flagged \<open>Mount\<close> alone, or
  \<open>Unmount\<close> alone, or \<open>ItemInodeMetaMod\<close> alone (with or without \<open>ItemIsFile\<close>) is
  reported as an unknown event.
\<close>

theorem handleEvent_single_flag_unknown:
  "handleEvent p kFSEventStreamEventFlagMount = ReportUnknownEvent p
   \<and> handleEvent p kFSEventStreamEventFlagUnmount = ReportUnknownEvent p
   \<and> handleEvent p kFSEventStreamEventFlagItemInodeMetaMod = ReportUnknownEvent p
   \<and> handleEvent p (kFSEventStreamEventFlagItemInodeMetaMod OR kFSEventStreamEventFlagItemIsFile)
       = ReportUnknownEvent p
   \<and> handleEvent p (kFSEventStreamEventFlagItemXattrMod OR kFSEventStreamEventFlagItemCreated)
       = ReportChangeEvent CREATED p"
  by (simp add: handleEvent_def IS_SET_def fsevent_flag_defs)

subsection \<open>Lookup of the watch point\<close>

text \<open>
  C3.  The claim has \<open>getWatchPointState\<close> return the state of a watch point only when
  the path equals its root or continues it with \<open>/\<close>.  In the code the character test
  reads a unit of the path at index 0 or 1 and asks whether it is non-zero, so a root
  that is a mere string prefix of the path matches: with the single root \<open>/tmp/a\<close>
  the lookup of \<open>/tmp/ab\<close> returns that root's state although the predicate of the
  specification does not hold, where the claim has it throw.
\<close>

theorem getWatchPointState_string_prefix:
  "getWatchPointState [(u16 ''/tmp/a'', NEW)] (u16 ''/tmp/ab'') = Inr NEW
   \<and> \<not> spec_watchPointMatches (u16 ''/tmp/a'') (u16 ''/tmp/ab'')"
  by (simp add: u16_def compare0_def at_def spec_watchPointMatches_def)

subsection \<open>Event ids\<close>

lemma keys_markHistorical: "map fst (markHistorical wps) = map fst wps"
  by (induction wps) (auto simp: markHistorical_def)

lemma handleEventsStep_frame:
  "handleEventsStep s e = (r, s1, acts) \<Longrightarrow>
     map fst (watchPoints s1) = map fst (watchPoints s) \<and> eventStream s1 = eventStream s"
  by (auto simp: handleEventsStep_def Let_def keys_markHistorical split: if_splits sum.splits)

lemma handleEventsLoop_frame:
  "handleEventsLoop s evs = (r, s1, acts) \<Longrightarrow>
     map fst (watchPoints s1) = map fst (watchPoints s) \<and> eventStream s1 = eventStream s"
proof (induction evs arbitrary: s r s1 acts)
  case Nil
  then show ?case by simp
next
  case (Cons e es)
  obtain r0 s0 a0 where st: "handleEventsStep s e = (r0, s0, a0)"
    by (cases "handleEventsStep s e") auto
  note fr = handleEventsStep_frame [OF st]
  show ?case
  proof (cases r0)
    case None
    obtain r2 s2 a2 where lp: "handleEventsLoop s0 es = (r2, s2, a2)"
      by (cases "handleEventsLoop s0 es") auto
    from Cons.prems st None lp have "s1 = s2" by simp
    with Cons.IH [OF lp] fr show ?thesis by simp
  next
    case (Some ex)
    with Cons.prems st have "s1 = s0" by simp
    with fr show ?thesis by simp
  qed
qed

lemma handleEvents_frame:
  "handleEvents s evs = (s1, acts) \<Longrightarrow>
     map fst (watchPoints s1) = map fst (watchPoints s) \<and> eventStream s1 = eventStream s"
proof -
  assume h: "handleEvents s evs = (s1, acts)"
  obtain r s2 a2 where lp: "handleEventsLoop s evs = (r, s2, a2)"
    by (cases "handleEventsLoop s evs") auto
  from h lp have "s1 = s2" by (cases r) (simp_all add: handleEvents_def)
  with handleEventsLoop_frame [OF lp] show ?thesis by simp
qed

lemma deliver_frame:
  "deliver s bs = (s1, acts) \<Longrightarrow>
     map fst (watchPoints s1) = map fst (watchPoints s) \<and> eventStream s1 = eventStream s"
proof (induction bs arbitrary: s s1 acts)
  case Nil
  then show ?case by simp
next
  case (Cons b bs)
  obtain s0 a0 where he: "handleEvents s b = (s0, a0)" by (cases "handleEvents s b") auto
  obtain s2 a2 where dl: "deliver s0 bs = (s2, a2)" by (cases "deliver s0 bs") auto
  from Cons.prems he dl have "s1 = s2" by simp
  with Cons.IH [OF dl] handleEvents_frame [OF he] show ?case by simp
qed

lemma closeEventStream_keys:
  "map fst (watchPoints (closeEventStream cs s)) = map fst (watchPoints s)"
  using deliver_frame [of s "pendingEvents cs"]
  by (cases "deliver s (pendingEvents cs)") (auto simp: closeEventStream_def)

lemma closeEventStream_stream: "eventStream (closeEventStream cs s) = None"
  by (simp add: closeEventStream_def)

lemma map_of_None_keys: "(map_of m k = None) = (k \<notin> set (map fst m))"
  by (simp add: map_of_eq_None_iff)

lemma updates_append: "updates (xs @ ys) = updates xs @ updates ys"
  by (induction xs rule: updates.induct) auto

lemma updates_reports: "list_all isReport reps \<Longrightarrow> updates reps = []"
  by (induction reps rule: updates.induct) auto

lemma step_shape:
  "handleEventsStep s e = (r, s1, acts) \<Longrightarrow>
     lastSeenEventId s1 = eventId e \<and>
     (\<exists>reps. acts = SetLastSeenEventId (eventId e) # reps \<and> list_all isReport reps)"
  by (auto simp: handleEventsStep_def Let_def dispatchEvent_def handleEvent_def split: if_splits sum.splits)

lemma step_updates:
  "handleEventsStep s e = (r, s1, acts) \<Longrightarrow> updates acts = [eventId e]"
  using step_shape [of s e r s1 acts] by (auto simp: updates_reports)

lemma loop_updates:
  "handleEventsLoop s evs = (r, s1, acts) \<Longrightarrow>
     prefix (updates acts) (map eventId evs) \<and>
     lastSeenEventId s1 = last (lastSeenEventId s # updates acts)"
proof (induction evs arbitrary: s r s1 acts)
  case Nil
  then show ?case by simp
next
  case (Cons e es)
  obtain r0 s0 a0 where st: "handleEventsStep s e = (r0, s0, a0)"
    by (cases "handleEventsStep s e") auto
  note u0 = step_updates [OF st]
  from step_shape [OF st] have l0: "lastSeenEventId s0 = eventId e" by simp
  show ?case
  proof (cases r0)
    case (Some ex)
    with Cons.prems st have "acts = a0" "s1 = s0" by simp_all
    with u0 l0 show ?thesis by simp
  next
    case None
    obtain r2 s2 a2 where lp: "handleEventsLoop s0 es = (r2, s2, a2)"
      by (cases "handleEventsLoop s0 es") auto
    from Cons.prems st None lp have eq: "acts = a0 @ a2" "s1 = s2" by simp_all
    from Cons.IH [OF lp] have ih: "prefix (updates a2) (map eventId es)"
      "lastSeenEventId s2 = last (lastSeenEventId s0 # updates a2)" by simp_all
    show ?thesis using eq ih u0 l0 by (simp add: updates_append)
  qed
qed

lemma handleEvents_updates:
  "handleEvents s evs = (s1, acts) \<Longrightarrow>
     prefix (updates acts) (map eventId evs) \<and>
     lastSeenEventId s1 = last (lastSeenEventId s # updates acts)"
proof -
  assume h: "handleEvents s evs = (s1, acts)"
  obtain r s2 a2 where lp: "handleEventsLoop s evs = (r, s2, a2)"
    by (cases "handleEventsLoop s evs") auto
  from h lp have "s1 = s2 \<and> updates acts = updates a2"
    by (cases r) (auto simp: handleEvents_def updates_append)
  with loop_updates [OF lp] show ?thesis by simp
qed

lemma last_chain: "last (a # xs @ ys) = last (last (a # xs) # ys)"
  by (induction xs arbitrary: a) auto

lemma deliver_updates:
  "deliver s bs = (s1, acts) \<Longrightarrow>
     subseq (updates acts) (concat (map (map eventId) bs)) \<and>
     lastSeenEventId s1 = last (lastSeenEventId s # updates acts)"
proof (induction bs arbitrary: s s1 acts)
  case Nil
  then show ?case by simp
next
  case (Cons b bs)
  obtain s0 a0 where he: "handleEvents s b = (s0, a0)" by (cases "handleEvents s b") auto
  obtain s2 a2 where dl: "deliver s0 bs = (s2, a2)" by (cases "deliver s0 bs") auto
  from Cons.prems he dl have eq: "s1 = s2" "acts = a0 @ a2" by simp_all
  from handleEvents_updates [OF he] have h0: "subseq (updates a0) (map eventId b)"
    "lastSeenEventId s0 = last (lastSeenEventId s # updates a0)"
    by (simp_all add: prefix_imp_subseq)
  from Cons.IH [OF dl] have ih: "subseq (updates a2) (concat (map (map eventId) bs))"
    "lastSeenEventId s2 = last (lastSeenEventId s0 # updates a2)" by simp_all
  have "subseq (updates a0 @ updates a2) (map eventId b @ concat (map (map eventId) bs))"
    using h0(1) ih(1) by (rule list_emb_append_mono)
  moreover have "lastSeenEventId s2 = last (lastSeenEventId s # updates a0 @ updates a2)"
    using ih(2) h0(2) by (simp only: last_chain [of "lastSeenEventId s" "updates a0" "updates a2"])
  ultimately show ?case using eq by (simp add: updates_append)
qed

lemma subseq_sorted: "subseq xs ys \<Longrightarrow> sorted ys \<Longrightarrow> sorted xs"
proof (induction rule: list_emb.induct)
  case (list_emb_Nil ys)
  then show ?case by simp
next
  case (list_emb_Cons xs ys y)
  then show ?case by simp
next
  case (list_emb_Cons2 x y xs ys)
  then have "sorted xs" "\<forall>z\<in>set ys. y \<le> z" "x = y" by simp_all
  moreover have "set xs \<subseteq> set ys"
    using list_emb_Cons2.hyps(2) by (auto dest: list_emb_set)
  ultimately show ?case by auto
qed



lemma handleEvent_cases:
  "handleEvent p f = ReportOverflow p \<or> handleEvent p f = ReportUnknownEvent p
   \<or> (\<exists>t. handleEvent p f = ReportChangeEvent t p)"
  by (simp add: handleEvent_def)

lemma handleEvent_isReport: "isReport (handleEvent p f)"
  using handleEvent_cases [of p f] by auto

lemma handleEvent_not_failure: "\<not> isFailure (handleEvent p f)"
  using handleEvent_cases [of p f] by auto

lemma step_exact:
  "handleEventsStep s e = (r, s1, acts) \<Longrightarrow>
     lastSeenEventId s1 = eventId e \<and>
     (\<exists>reps. acts = SetLastSeenEventId (eventId e) # reps
        \<and> (reps = [] \<or> reps = [ReportChangeEvent INVALIDATED (eventPath e)]
             \<or> reps = [handleEvent (eventPath e) (eventFlags e)])
        \<and> (r \<noteq> None \<longrightarrow> reps = []))"
  by (auto simp: handleEventsStep_def Let_def dispatchEvent_def split: if_splits sum.splits)

lemma step_no_failure:
  "handleEventsStep s e = (r, s1, acts) \<Longrightarrow> list_all (\<lambda>a. \<not> isFailure a) acts"
  using step_exact [of s e r s1 acts] handleEvent_not_failure [of "eventPath e" "eventFlags e"]
  by auto

lemma loop_exact:
  "handleEventsLoop s evs = (r, s1, acts) \<Longrightarrow>
     \<exists>segs. acts = concat segs \<and> length segs \<le> length evs
       \<and> (r = None \<longrightarrow> length segs = length evs)
       \<and> (r \<noteq> None \<longrightarrow> segs \<noteq> []
             \<and> last segs = [SetLastSeenEventId (eventId (evs ! (length segs - 1)))])
       \<and> (\<forall>i<length segs. \<exists>reps.
              segs ! i = SetLastSeenEventId (eventId (evs ! i)) # reps
              \<and> (reps = [] \<or> reps = [ReportChangeEvent INVALIDATED (eventPath (evs ! i))]
                   \<or> reps = [handleEvent (eventPath (evs ! i)) (eventFlags (evs ! i))]))
       \<and> updates acts = map eventId (take (length segs) evs)"
proof (induction evs arbitrary: s r s1 acts)
  case Nil
  then show ?case by simp
next
  case (Cons e es)
  obtain r0 s0 a0 where st: "handleEventsStep s e = (r0, s0, a0)"
    by (cases "handleEventsStep s e") auto
  from step_exact [OF st] obtain reps where
    a0: "a0 = SetLastSeenEventId (eventId e) # reps" and
    rp: "reps = [] \<or> reps = [ReportChangeEvent INVALIDATED (eventPath e)]
             \<or> reps = [handleEvent (eventPath e) (eventFlags e)]" and
    rn: "r0 \<noteq> None \<longrightarrow> reps = []" by blast
  have u0: "updates a0 = [eventId e]" using st by (rule step_updates)
  have seg0: "\<exists>reps. a0 = SetLastSeenEventId (eventId e) # reps
              \<and> (reps = [] \<or> reps = [ReportChangeEvent INVALIDATED (eventPath e)]
                   \<or> reps = [handleEvent (eventPath e) (eventFlags e)])"
    using a0 rp by blast
  show ?case
  proof (cases r0)
    case (Some ex)
    with Cons.prems st have eq: "acts = a0" "r = Some ex" by simp_all
    from Some rn a0 have l: "a0 = [SetLastSeenEventId (eventId e)]" by simp
    have "acts = concat [a0]" using eq by simp
    moreover have "\<forall>i<length [a0]. \<exists>reps.
              [a0] ! i = SetLastSeenEventId (eventId ((e # es) ! i)) # reps
              \<and> (reps = [] \<or> reps = [ReportChangeEvent INVALIDATED (eventPath ((e # es) ! i))]
                   \<or> reps = [handleEvent (eventPath ((e # es) ! i)) (eventFlags ((e # es) ! i))])"
      using seg0 by simp
    moreover have "last [a0] = [SetLastSeenEventId (eventId ((e # es) ! (length [a0] - 1)))]"
      using l by simp
    moreover have "updates acts = map eventId (take (length [a0]) (e # es))"
      using eq u0 by simp
    ultimately show ?thesis using eq(2)
      by (intro exI [of _ "[a0]"]) simp
  next
    case None
    obtain r2 s2 a2 where lp: "handleEventsLoop s0 es = (r2, s2, a2)"
      by (cases "handleEventsLoop s0 es") auto
    from Cons.prems st None lp have eq: "acts = a0 @ a2" "r = r2" by simp_all
    from Cons.IH [OF lp] obtain segs where
      sg: "a2 = concat segs" "length segs \<le> length es" "r2 = None \<longrightarrow> length segs = length es"
        "r2 \<noteq> None \<longrightarrow> segs \<noteq> []
             \<and> last segs = [SetLastSeenEventId (eventId (es ! (length segs - 1)))]"
        "\<forall>i<length segs. \<exists>reps.
              segs ! i = SetLastSeenEventId (eventId (es ! i)) # reps
              \<and> (reps = [] \<or> reps = [ReportChangeEvent INVALIDATED (eventPath (es ! i))]
                   \<or> reps = [handleEvent (eventPath (es ! i)) (eventFlags (es ! i))])"
        "updates a2 = map eventId (take (length segs) es)" by blast
    have all: "\<forall>i<length (a0 # segs). \<exists>reps.
              (a0 # segs) ! i = SetLastSeenEventId (eventId ((e # es) ! i)) # reps
              \<and> (reps = [] \<or> reps = [ReportChangeEvent INVALIDATED (eventPath ((e # es) ! i))]
                   \<or> reps = [handleEvent (eventPath ((e # es) ! i)) (eventFlags ((e # es) ! i))])"
    proof (intro allI impI)
      fix i assume "i < length (a0 # segs)"
      then show "\<exists>reps.
              (a0 # segs) ! i = SetLastSeenEventId (eventId ((e # es) ! i)) # reps
              \<and> (reps = [] \<or> reps = [ReportChangeEvent INVALIDATED (eventPath ((e # es) ! i))]
                   \<or> reps = [handleEvent (eventPath ((e # es) ! i)) (eventFlags ((e # es) ! i))])"
        using seg0 sg(5) by (cases i) simp_all
    qed
    have lst: "r2 \<noteq> None \<longrightarrow> a0 # segs \<noteq> []
             \<and> last (a0 # segs)
                 = [SetLastSeenEventId (eventId ((e # es) ! (length (a0 # segs) - 1)))]"
    proof
      assume "r2 \<noteq> None"
      with sg(4) have ne: "segs \<noteq> []"
        and l: "last segs = [SetLastSeenEventId (eventId (es ! (length segs - 1)))]" by simp_all
      from ne have "(e # es) ! (length (a0 # segs) - 1) = es ! (length segs - 1)"
        by (cases segs) simp_all
      with ne l show "a0 # segs \<noteq> []
             \<and> last (a0 # segs)
                 = [SetLastSeenEventId (eventId ((e # es) ! (length (a0 # segs) - 1)))]"
        by simp
    qed
    have upd: "updates acts = map eventId (take (length (a0 # segs)) (e # es))"
      using eq u0 sg(6) by (simp add: updates_append)
    show ?thesis
      using eq sg(1,2,3) all lst upd by (intro exI [of _ "a0 # segs"]) simp
  qed
qed

lemma loop_no_failure:
  "handleEventsLoop s evs = (r, s1, acts) \<Longrightarrow> list_all (\<lambda>a. \<not> isFailure a) acts"
proof (induction evs arbitrary: s r s1 acts)
  case Nil
  then show ?case by simp
next
  case (Cons e es)
  obtain r0 s0 a0 where st: "handleEventsStep s e = (r0, s0, a0)"
    by (cases "handleEventsStep s e") auto
  note n0 = step_no_failure [OF st]
  show ?case
  proof (cases r0)
    case (Some ex)
    with Cons.prems st n0 show ?thesis by simp
  next
    case None
    obtain r2 s2 a2 where lp: "handleEventsLoop s0 es = (r2, s2, a2)"
      by (cases "handleEventsLoop s0 es") auto
    from Cons.prems st None lp have "acts = a0 @ a2" by simp
    with n0 Cons.IH [OF lp] show ?thesis by simp
  qed
qed

lemma handleEvents_complete:
  "handleEvents s evs = (s1, acts) \<Longrightarrow> list_all (\<lambda>a. \<not> isFailure a) acts \<Longrightarrow>
     updates acts = map eventId evs"
proof -
  assume h: "handleEvents s evs = (s1, acts)" and nf: "list_all (\<lambda>a. \<not> isFailure a) acts"
  obtain r s2 a2 where lp: "handleEventsLoop s evs = (r, s2, a2)"
    by (cases "handleEventsLoop s evs") auto
  show ?thesis
  proof (cases r)
    case None
    with h lp have "acts = a2" by (simp add: handleEvents_def)
    moreover from loop_exact [OF lp] None have "updates a2 = map eventId evs" by auto
    ultimately show ?thesis by simp
  next
    case (Some ex)
    with h lp have "acts = a2 @ [ReportFailure ex]" by (simp add: handleEvents_def)
    with nf show ?thesis by simp
  qed
qed

lemma deliver_complete:
  "deliver s bs = (s1, acts) \<Longrightarrow> list_all (\<lambda>a. \<not> isFailure a) acts \<Longrightarrow>
     updates acts = concat (map (map eventId) bs)"
proof (induction bs arbitrary: s s1 acts)
  case Nil
  then show ?case by simp
next
  case (Cons b bs)
  obtain s0 a0 where he: "handleEvents s b = (s0, a0)" by (cases "handleEvents s b") auto
  obtain s2 a2 where dl: "deliver s0 bs = (s2, a2)" by (cases "deliver s0 bs") auto
  from Cons.prems(1) he dl have eq: "acts = a0 @ a2" by simp
  with Cons.prems(2) have n0: "list_all (\<lambda>a. \<not> isFailure a) a0"
    and n2: "list_all (\<lambda>a. \<not> isFailure a) a2" by simp_all
  from handleEvents_complete [OF he n0] Cons.IH [OF dl n2] eq
  show ?case by (simp add: updates_append)
qed

text \<open>
  C4 (as amended).  \<^verbatim>\<open>lastSeenEventId\<close> follows the event ids.  What the worker does
  for a batch is one segment per handled event, in the order of the batch, followed by
  the failure report if an exception left the loop: without exception every event of
  the batch has its segment, with an exception the segments end at the event that threw,
  whose segment is its assignment alone.  The segment of the \<open>i\<close>-th event is the
  assignment of that event's id to \<^verbatim>\<open>lastSeenEventId\<close> followed by at most one report,
  which is the report for that event's path (INVALIDATED for a changed root, or what
  \<open>handleEvent\<close> makes of its flags); so the assignment precedes every callback for the
  same event, and the server ends with the id of the last handled event.  Over a run of
  batches the values assigned are a subsequence of the delivered ids, and all of them
  when no batch fails; the final value is the last one assigned, and the values are
  non-decreasing whenever the delivered ids, starting from the current value, are
  non-decreasing.
\<close>

theorem lastSeenEventId_follows_event_ids:
  "(\<exists>segs fail. snd (handleEvents s evs) = concat segs @ fail
       \<and> length segs \<le> length evs
       \<and> (fail = [] \<and> length segs = length evs
            \<or> (\<exists>ex. fail = [ReportFailure ex]) \<and> segs \<noteq> []
               \<and> last segs = [SetLastSeenEventId (eventId (evs ! (length segs - 1)))])
       \<and> (\<forall>i<length segs. \<exists>reps.
              segs ! i = SetLastSeenEventId (eventId (evs ! i)) # reps
              \<and> (reps = [] \<or> reps = [ReportChangeEvent INVALIDATED (eventPath (evs ! i))]
                   \<or> reps = [handleEvent (eventPath (evs ! i)) (eventFlags (evs ! i))]))
       \<and> lastSeenEventId (fst (handleEvents s evs))
           = last (lastSeenEventId s # map eventId (take (length segs) evs)))
   \<and> subseq (updates (snd (deliver s batches))) (concat (map (map eventId) batches))
   \<and> (list_all (\<lambda>a. \<not> isFailure a) (snd (deliver s batches)) \<longrightarrow>
         updates (snd (deliver s batches)) = concat (map (map eventId) batches))
   \<and> lastSeenEventId (fst (deliver s batches))
       = last (lastSeenEventId s # updates (snd (deliver s batches)))
   \<and> (sorted (lastSeenEventId s # concat (map (map eventId) batches))
        \<longrightarrow> sorted (lastSeenEventId s # updates (snd (deliver s batches))))"
proof -
  obtain r s2 a2 where lp: "handleEventsLoop s evs = (r, s2, a2)"
    by (cases "handleEventsLoop s evs") auto
  from loop_exact [OF lp] obtain segs where
    sg: "a2 = concat segs" "length segs \<le> length evs"
      "r = None \<longrightarrow> length segs = length evs"
      "r \<noteq> None \<longrightarrow> segs \<noteq> []
             \<and> last segs = [SetLastSeenEventId (eventId (evs ! (length segs - 1)))]"
      "\<forall>i<length segs. \<exists>reps.
              segs ! i = SetLastSeenEventId (eventId (evs ! i)) # reps
              \<and> (reps = [] \<or> reps = [ReportChangeEvent INVALIDATED (eventPath (evs ! i))]
                   \<or> reps = [handleEvent (eventPath (evs ! i)) (eventFlags (evs ! i))])"
      "updates a2 = map eventId (take (length segs) evs)" by blast
  define fail where "fail = (case r of None \<Rightarrow> [] | Some ex \<Rightarrow> [ReportFailure ex])"
  have t: "snd (handleEvents s evs) = concat segs @ fail"
    using lp sg(1) by (cases r) (simp_all add: handleEvents_def fail_def)
  have f: "fail = [] \<and> length segs = length evs
            \<or> (\<exists>ex. fail = [ReportFailure ex]) \<and> segs \<noteq> []
               \<and> last segs = [SetLastSeenEventId (eventId (evs ! (length segs - 1)))]"
    using sg(3,4) by (cases r) (simp_all add: fail_def)
  have "fst (handleEvents s evs) = s2"
    using lp by (cases r) (simp_all add: handleEvents_def)
  with loop_updates [OF lp] sg(6)
  have l: "lastSeenEventId (fst (handleEvents s evs))
           = last (lastSeenEventId s # map eventId (take (length segs) evs))" by simp
  have first: "\<exists>segs fail. snd (handleEvents s evs) = concat segs @ fail
       \<and> length segs \<le> length evs
       \<and> (fail = [] \<and> length segs = length evs
            \<or> (\<exists>ex. fail = [ReportFailure ex]) \<and> segs \<noteq> []
               \<and> last segs = [SetLastSeenEventId (eventId (evs ! (length segs - 1)))])
       \<and> (\<forall>i<length segs. \<exists>reps.
              segs ! i = SetLastSeenEventId (eventId (evs ! i)) # reps
              \<and> (reps = [] \<or> reps = [ReportChangeEvent INVALIDATED (eventPath (evs ! i))]
                   \<or> reps = [handleEvent (eventPath (evs ! i)) (eventFlags (evs ! i))]))
       \<and> lastSeenEventId (fst (handleEvents s evs))
           = last (lastSeenEventId s # map eventId (take (length segs) evs))"
    using t sg(2,5) f l by blast
  obtain s1 acts where dl: "deliver s batches = (s1, acts)"
    by (cases "deliver s batches") auto
  from deliver_updates [OF dl] have
    sub: "subseq (updates acts) (concat (map (map eventId) batches))" and
    lst: "lastSeenEventId s1 = last (lastSeenEventId s # updates acts)" by simp_all
  have cmp: "updates acts = concat (map (map eventId) batches)"
    if "list_all (\<lambda>a. \<not> isFailure a) acts"
    using dl that by (rule deliver_complete)
  have srt: "sorted (lastSeenEventId s # updates acts)"
    if "sorted (lastSeenEventId s # concat (map (map eventId) batches))"
  proof -
    have "subseq (lastSeenEventId s # updates acts)
            (lastSeenEventId s # concat (map (map eventId) batches))"
      using sub by simp
    then show ?thesis using that by (rule subseq_sorted)
  qed
  show ?thesis using first sub lst srt cmp dl by simp
qed

text \<open>C4, witness: a batch of two events, and a run of two batches with increasing ids.\<close>

theorem lastSeenEventId_follows_event_ids_witness:
  "snd (handleEvents
        \<lparr>watchPoints = [(u16 ''/tmp/a'', HISTORICAL)], lastSeenEventId = 1,
          finishedProcessingHistoricalEvents = True, eventStream = None\<rparr>
        [\<lparr>eventPath = u16 ''/tmp/a/x'', eventFlags = kFSEventStreamEventFlagItemCreated, eventId = 2\<rparr>,
         \<lparr>eventPath = u16 ''/tmp/a/y'', eventFlags = kFSEventStreamEventFlagItemRemoved, eventId = 3\<rparr>])
     = [SetLastSeenEventId 2, ReportChangeEvent CREATED (u16 ''/tmp/a/x''),
        SetLastSeenEventId 3, ReportChangeEvent REMOVED (u16 ''/tmp/a/y'')]
   \<and> (\<exists>segs fail. snd (handleEvents
        \<lparr>watchPoints = [(u16 ''/tmp/a'', HISTORICAL)], lastSeenEventId = 1,
          finishedProcessingHistoricalEvents = True, eventStream = None\<rparr>
        [\<lparr>eventPath = u16 ''/tmp/a/x'', eventFlags = kFSEventStreamEventFlagItemCreated, eventId = 2\<rparr>,
         \<lparr>eventPath = u16 ''/tmp/a/y'', eventFlags = kFSEventStreamEventFlagItemRemoved, eventId = 3\<rparr>])
          = concat segs @ fail
       \<and> length segs \<le> length
        [\<lparr>eventPath = u16 ''/tmp/a/x'', eventFlags = kFSEventStreamEventFlagItemCreated, eventId = 2\<rparr>,
         \<lparr>eventPath = u16 ''/tmp/a/y'', eventFlags = kFSEventStreamEventFlagItemRemoved, eventId = 3\<rparr>]
       \<and> (fail = [] \<and> length segs = length
        [\<lparr>eventPath = u16 ''/tmp/a/x'', eventFlags = kFSEventStreamEventFlagItemCreated, eventId = 2\<rparr>,
         \<lparr>eventPath = u16 ''/tmp/a/y'', eventFlags = kFSEventStreamEventFlagItemRemoved, eventId = 3\<rparr>]
            \<or> (\<exists>ex. fail = [ReportFailure ex]) \<and> segs \<noteq> []))
   \<and> sorted ((1 :: FSEventStreamEventId) # concat (map (map eventId)
       [[\<lparr>eventPath = u16 ''/tmp/a/x'', eventFlags = kFSEventStreamEventFlagItemCreated, eventId = 2\<rparr>],
        [\<lparr>eventPath = u16 ''/tmp/a/y'', eventFlags = kFSEventStreamEventFlagItemRemoved, eventId = 3\<rparr>]]))
   \<and> list_all (\<lambda>a. \<not> isFailure a) (snd (deliver
        \<lparr>watchPoints = [(u16 ''/tmp/a'', HISTORICAL)], lastSeenEventId = 1,
          finishedProcessingHistoricalEvents = True, eventStream = None\<rparr>
       [[\<lparr>eventPath = u16 ''/tmp/a/x'', eventFlags = kFSEventStreamEventFlagItemCreated, eventId = 2\<rparr>],
        [\<lparr>eventPath = u16 ''/tmp/a/y'', eventFlags = kFSEventStreamEventFlagItemRemoved, eventId = 3\<rparr>]]))
   \<and> updates (snd (deliver
        \<lparr>watchPoints = [(u16 ''/tmp/a'', HISTORICAL)], lastSeenEventId = 1,
          finishedProcessingHistoricalEvents = True, eventStream = None\<rparr>
       [[\<lparr>eventPath = u16 ''/tmp/a/x'', eventFlags = kFSEventStreamEventFlagItemCreated, eventId = 2\<rparr>],
        [\<lparr>eventPath = u16 ''/tmp/a/y'', eventFlags = kFSEventStreamEventFlagItemRemoved, eventId = 3\<rparr>]]))
      = concat (map (map eventId)
       [[\<lparr>eventPath = u16 ''/tmp/a/x'', eventFlags = kFSEventStreamEventFlagItemCreated, eventId = 2\<rparr>],
        [\<lparr>eventPath = u16 ''/tmp/a/y'', eventFlags = kFSEventStreamEventFlagItemRemoved, eventId = 3\<rparr>]])
   \<and> sorted (lastSeenEventId \<lparr>watchPoints = [(u16 ''/tmp/a'', HISTORICAL)], lastSeenEventId = 1,
          finishedProcessingHistoricalEvents = True, eventStream = None\<rparr>
        # updates (snd (deliver
        \<lparr>watchPoints = [(u16 ''/tmp/a'', HISTORICAL)], lastSeenEventId = 1,
          finishedProcessingHistoricalEvents = True, eventStream = None\<rparr>
       [[\<lparr>eventPath = u16 ''/tmp/a/x'', eventFlags = kFSEventStreamEventFlagItemCreated, eventId = 2\<rparr>],
        [\<lparr>eventPath = u16 ''/tmp/a/y'', eventFlags = kFSEventStreamEventFlagItemRemoved, eventId = 3\<rparr>]])))
   \<and> lastSeenEventId (fst (deliver
        \<lparr>watchPoints = [(u16 ''/tmp/a'', HISTORICAL)], lastSeenEventId = 1,
          finishedProcessingHistoricalEvents = True, eventStream = None\<rparr>
       [[\<lparr>eventPath = u16 ''/tmp/a/x'', eventFlags = kFSEventStreamEventFlagItemCreated, eventId = 2\<rparr>],
        [\<lparr>eventPath = u16 ''/tmp/a/y'', eventFlags = kFSEventStreamEventFlagItemRemoved, eventId = 3\<rparr>]])) = 3"
proof -
  let ?s = "\<lparr>watchPoints = [(u16 ''/tmp/a'', HISTORICAL)], lastSeenEventId = 1,
          finishedProcessingHistoricalEvents = True, eventStream = None\<rparr>"
  let ?x = "\<lparr>eventPath = u16 ''/tmp/a/x'', eventFlags = kFSEventStreamEventFlagItemCreated, eventId = 2\<rparr>"
  let ?y = "\<lparr>eventPath = u16 ''/tmp/a/y'', eventFlags = kFSEventStreamEventFlagItemRemoved, eventId = 3\<rparr>"
  note t = lastSeenEventId_follows_event_ids [of ?s "[?x, ?y]" "[[?x], [?y]]"]
  have ev: "handleEvents ?s [?x, ?y]
     = (\<lparr>watchPoints = [(u16 ''/tmp/a'', HISTORICAL)], lastSeenEventId = 3,
          finishedProcessingHistoricalEvents = True, eventStream = None\<rparr>,
        [SetLastSeenEventId 2, ReportChangeEvent CREATED (u16 ''/tmp/a/x''),
         SetLastSeenEventId 3, ReportChangeEvent REMOVED (u16 ''/tmp/a/y'')])"
    by (simp add: handleEvents_def handleEventsStep_def dispatchEvent_def handleEvent_def
        IS_SET_def IGNORED_FLAGS_def fsevent_flag_defs)
  then have e1: "snd (handleEvents ?s [?x, ?y])
     = [SetLastSeenEventId 2, ReportChangeEvent CREATED (u16 ''/tmp/a/x''),
        SetLastSeenEventId 3, ReportChangeEvent REMOVED (u16 ''/tmp/a/y'')]" by simp
  have dl: "deliver ?s [[?x], [?y]]
     = (\<lparr>watchPoints = [(u16 ''/tmp/a'', HISTORICAL)], lastSeenEventId = 3,
          finishedProcessingHistoricalEvents = True, eventStream = None\<rparr>,
        [SetLastSeenEventId 2, ReportChangeEvent CREATED (u16 ''/tmp/a/x''),
         SetLastSeenEventId 3, ReportChangeEvent REMOVED (u16 ''/tmp/a/y'')])"
    by (simp add: handleEvents_def handleEventsStep_def dispatchEvent_def handleEvent_def
        IS_SET_def IGNORED_FLAGS_def fsevent_flag_defs)
  have seg: "\<exists>segs fail. snd (handleEvents ?s [?x, ?y]) = concat segs @ fail
       \<and> length segs \<le> length [?x, ?y]
       \<and> (fail = [] \<and> length segs = length [?x, ?y]
            \<or> (\<exists>ex. fail = [ReportFailure ex]) \<and> segs \<noteq> [])"
    using t [THEN conjunct1] by blast
  have h: "sorted ((1 :: FSEventStreamEventId) # concat (map (map eventId) [[?x], [?y]]))"
    by simp
  then have h': "sorted (lastSeenEventId ?s # concat (map (map eventId) [[?x], [?y]]))"
    by simp
  have nf: "list_all (\<lambda>a. \<not> isFailure a) (snd (deliver ?s [[?x], [?y]]))"
    unfolding dl by simp
  have up: "updates (snd (deliver ?s [[?x], [?y]])) = concat (map (map eventId) [[?x], [?y]])"
    using t [THEN conjunct2, THEN conjunct2, THEN conjunct1, THEN mp, OF nf] .
  have so: "sorted (lastSeenEventId ?s # updates (snd (deliver ?s [[?x], [?y]])))"
    using t [THEN conjunct2, THEN conjunct2, THEN conjunct2, THEN conjunct2, THEN mp, OF h'] .
  have fin: "lastSeenEventId (fst (deliver ?s [[?x], [?y]])) = 3"
    unfolding dl by simp
  show ?thesis using e1 seg h nf up so fin by blast
qed

text \<open>
  C4, counterexample to monotonicity for arbitrary ids: the code assigns the id of every
  event, and itself expects the id 0 on a \<open>RootChanged\<close> event; after an event with id
  7 such an event is reported as INVALIDATED and leaves \<^verbatim>\<open>lastSeenEventId\<close> at 0.
\<close>

theorem lastSeenEventId_decreases_counterexample:
  "lastSeenEventId (fst (handleEvents
      \<lparr>watchPoints = [(u16 ''/tmp/a'', HISTORICAL)], lastSeenEventId = 7,
        finishedProcessingHistoricalEvents = True, eventStream = None\<rparr>
      [\<lparr>eventPath = u16 ''/tmp/a'', eventFlags = kFSEventStreamEventFlagRootChanged, eventId = 0\<rparr>]))
   < lastSeenEventId
      \<lparr>watchPoints = [(u16 ''/tmp/a'', HISTORICAL)], lastSeenEventId = 7,
        finishedProcessingHistoricalEvents = True, eventStream = None\<rparr>
   \<and> snd (handleEvents
      \<lparr>watchPoints = [(u16 ''/tmp/a'', HISTORICAL)], lastSeenEventId = 7,
        finishedProcessingHistoricalEvents = True, eventStream = None\<rparr>
      [\<lparr>eventPath = u16 ''/tmp/a'', eventFlags = kFSEventStreamEventFlagRootChanged, eventId = 0\<rparr>])
     = [SetLastSeenEventId 0, ReportChangeEvent INVALIDATED (u16 ''/tmp/a'')]"
  by (simp add: handleEvents_def handleEventsStep_def IS_SET_def fsevent_flag_defs)

section \<open>Helper lemmas for the commands and for Windows paths\<close>

lemma keys_erase: "map fst (erase k m) = filter (\<lambda>x. x \<noteq> k) (map fst m)"
  by (induction m) (auto simp: erase_def)

lemma erase_count_0: "(erase_count k m = 0) = (k \<notin> set (map fst m))"
  by (simp add: erase_count_def map_of_None_keys)

lemma unregisterLoop_result:
  "unregisterLoop s paths b = (s1, b1) \<Longrightarrow>
     map fst (watchPoints s1) = filter (\<lambda>k. k \<notin> set paths) (map fst (watchPoints s))
     \<and> b1 = (b \<and> distinct paths \<and> set paths \<subseteq> set (map fst (watchPoints s)))
     \<and> eventStream s1 = eventStream s"
proof (induction paths arbitrary: s b)
  case Nil
  then show ?case by simp
next
  case (Cons p ps)
  let ?s = "s\<lparr>watchPoints := erase p (watchPoints s)\<rparr>"
  let ?b = "if erase_count p (watchPoints s) = 0 then False else b"
  from Cons.prems have "unregisterLoop ?s ps ?b = (s1, b1)" by simp
  from Cons.IH [OF this] have
    k: "map fst (watchPoints s1) = filter (\<lambda>k. k \<notin> set ps) (map fst (erase p (watchPoints s)))" and
    b: "b1 = (?b \<and> distinct ps \<and> set ps \<subseteq> set (map fst (erase p (watchPoints s))))" and
    e: "eventStream s1 = eventStream s" by simp_all
  have "map fst (watchPoints s1) = filter (\<lambda>k. k \<notin> set (p # ps)) (map fst (watchPoints s))"
    using k by (simp add: keys_erase conj_commute)
  moreover have "b1 = (b \<and> distinct (p # ps) \<and> set (p # ps) \<subseteq> set (map fst (watchPoints s)))"
    using b by (auto simp: keys_erase erase_count_0)
  ultimately show ?case using e by simp
qed

lemma openEventStream_watchPoints:
  "watchPoints (snd (openEventStream cs s)) = watchPoints s"
  by (simp add: openEventStream_def Let_def split: option.splits)

lemma openEventStream_stream:
  "openEventStream cs s = (None, s1) \<Longrightarrow> eventStream s = None \<Longrightarrow>
     (eventStream s1 \<noteq> None) = (watchPoints s1 \<noteq> [])"
  by (auto simp: openEventStream_def Let_def split: option.splits if_splits)

lemma openEventStream_empty: "watchPoints s = [] \<Longrightarrow> openEventStream cs s = (None, s)"
  by (simp add: openEventStream_def)

lemma registerLoop_stream:
  "registerLoop s paths = (r, s1) \<Longrightarrow> eventStream s1 = eventStream s"
  by (induction s paths rule: registerLoop.induct) (auto split: if_splits)

lemma map_of_emplace: "map_of m k \<noteq> None \<Longrightarrow> map_of (emplace q v m) k \<noteq> None"
  by (auto simp: emplace_def map_of_None_keys)

lemma registerLoop_already:
  "p \<in> set paths \<Longrightarrow> map_of (watchPoints s) p \<noteq> None \<Longrightarrow>
     \<exists>q\<in>set paths. \<exists>s1. registerLoop s paths
        = (Some (FileWatcherException ''Already watching path'' (Some q) None), s1)"
proof (induction paths arbitrary: s)
  case Nil
  then show ?case by simp
next
  case (Cons x xs)
  show ?case
  proof (cases "map_of (watchPoints s) x \<noteq> None")
    case True
    then show ?thesis by simp
  next
    case False
    with Cons.prems have "p \<in> set xs" by auto
    let ?s = "s\<lparr>watchPoints := emplace x
                 (if lastSeenEventId s = kFSEventStreamEventIdSinceNow then HISTORICAL else NEW)
                 (watchPoints s)\<rparr>"
    have "map_of (watchPoints ?s) p \<noteq> None" using Cons.prems(2) by (simp add: map_of_emplace)
    from Cons.IH [OF \<open>p \<in> set xs\<close> this] obtain q s1 where
      "q \<in> set xs" "registerLoop ?s xs = (Some (FileWatcherException ''Already watching path'' (Some q) None), s1)"
      by blast
    with False show ?thesis by auto
  qed
qed

lemma map_of_closeEventStream:
  "(map_of (watchPoints (closeEventStream cs s)) p = None) = (map_of (watchPoints s) p = None)"
  by (simp add: map_of_None_keys closeEventStream_keys)

lemma registerPaths_already:
  "p \<in> set paths \<Longrightarrow> map_of (watchPoints s) p \<noteq> None \<Longrightarrow>
     \<exists>q\<in>set paths. fst (registerPaths cs s paths)
        = Inl (FileWatcherException ''Already watching path'' (Some q) None)"
proof -
  assume a: "p \<in> set paths" "map_of (watchPoints s) p \<noteq> None"
  then have "map_of (watchPoints (closeEventStream cs s)) p \<noteq> None"
    by (simp add: map_of_closeEventStream)
  from registerLoop_already [OF a(1) this] obtain q s1 where
    "q \<in> set paths" "registerLoop (closeEventStream cs s) paths
        = (Some (FileWatcherException ''Already watching path'' (Some q) None), s1)" by blast
  then show ?thesis by (auto simp: registerPaths_def)
qed

lemma registerPaths_stream:
  "registerPaths cs s paths = (Inr b, s1) \<Longrightarrow> (eventStream s1 \<noteq> None) = (watchPoints s1 \<noteq> [])"
proof -
  assume h: "registerPaths cs s paths = (Inr b, s1)"
  obtain r s0 where rl: "registerLoop (closeEventStream cs s) paths = (r, s0)"
    by (cases "registerLoop (closeEventStream cs s) paths") auto
  from registerLoop_stream [OF rl] have e0: "eventStream s0 = None"
    by (simp add: closeEventStream_stream)
  obtain r2 s2 where op: "openEventStream cs s0 = (r2, s2)"
    by (cases "openEventStream cs s0") auto
  from h rl op have "r = None" "r2 = None" "s1 = s2"
    by (auto simp: registerPaths_def split: option.splits)
  with openEventStream_stream [of cs s0 s2] op e0 show ?thesis by simp
qed

lemma unregisterPaths_parts:
  "unregisterPaths cs s paths = (r, s1) \<Longrightarrow>
     \<exists>s0 b0 r2. unregisterLoop (closeEventStream cs s) paths True = (s0, b0)
        \<and> openEventStream cs s0 = (r2, s1)
        \<and> r = (case r2 of Some ex \<Rightarrow> Inl ex | None \<Rightarrow> Inr b0)"
proof -
  assume h: "unregisterPaths cs s paths = (r, s1)"
  obtain s0 b0 where ul: "unregisterLoop (closeEventStream cs s) paths True = (s0, b0)"
    by (cases "unregisterLoop (closeEventStream cs s) paths True") auto
  obtain r2 s2 where op: "openEventStream cs s0 = (r2, s2)"
    by (cases "openEventStream cs s0") auto
  from h ul op show ?thesis by (cases r2) (auto simp: unregisterPaths_def)
qed

lemma unregisterPaths_stream:
  "unregisterPaths cs s paths = (Inr b, s1) \<Longrightarrow> (eventStream s1 \<noteq> None) = (watchPoints s1 \<noteq> [])"
proof -
  assume h: "unregisterPaths cs s paths = (Inr b, s1)"
  from unregisterPaths_parts [OF h] obtain s0 b0 r2 where
    ul: "unregisterLoop (closeEventStream cs s) paths True = (s0, b0)" and
    op: "openEventStream cs s0 = (r2, s1)" and
    r: "Inr b = (case r2 of Some ex \<Rightarrow> Inl ex | None \<Rightarrow> Inr b0)" by blast
  from r have "r2 = None" by (cases r2) auto
  moreover from unregisterLoop_result [OF ul] have "eventStream s0 = None"
    by (simp add: closeEventStream_stream)
  ultimately show ?thesis using openEventStream_stream [of cs s0 s1] op by simp
qed

lemma unregisterPaths_keys:
  "unregisterPaths cs s paths = (r, s1) \<Longrightarrow>
     map fst (watchPoints s1) = filter (\<lambda>k. k \<notin> set paths) (map fst (watchPoints s))
     \<and> (\<forall>b. r = Inr b \<longrightarrow>
           (b = False) = ((\<exists>p\<in>set paths. p \<notin> fst ` set (watchPoints s)) \<or> \<not> distinct paths))"
proof -
  assume h: "unregisterPaths cs s paths = (r, s1)"
  from unregisterPaths_parts [OF h] obtain s0 b0 r2 where
    ul: "unregisterLoop (closeEventStream cs s) paths True = (s0, b0)" and
    op: "openEventStream cs s0 = (r2, s1)" and
    r: "r = (case r2 of Some ex \<Rightarrow> Inl ex | None \<Rightarrow> Inr b0)" by blast
  from unregisterLoop_result [OF ul] have
    k: "map fst (watchPoints s0) = filter (\<lambda>k. k \<notin> set paths) (map fst (watchPoints s))" and
    b: "b0 = (distinct paths \<and> set paths \<subseteq> set (map fst (watchPoints s)))"
    by (simp_all add: closeEventStream_keys)
  from op openEventStream_watchPoints [of cs s0] have "watchPoints s1 = watchPoints s0" by simp
  with k have "map fst (watchPoints s1) = filter (\<lambda>k. k \<notin> set paths) (map fst (watchPoints s))"
    by simp
  moreover have "\<forall>b'. r = Inr b' \<longrightarrow>
           (b' = False) = ((\<exists>p\<in>set paths. p \<notin> fst ` set (watchPoints s)) \<or> \<not> distinct paths)"
    using r b by (cases r2) auto
  ultimately show ?thesis by simp
qed

lemma unregisterPaths_last:
  "set (map fst (watchPoints s)) \<subseteq> set paths \<Longrightarrow>
     (\<exists>b. fst (unregisterPaths cs s paths) = Inr b)
     \<and> watchPoints (snd (unregisterPaths cs s paths)) = []
     \<and> eventStream (snd (unregisterPaths cs s paths)) = None"
proof -
  assume sub: "set (map fst (watchPoints s)) \<subseteq> set paths"
  obtain r s1 where h: "unregisterPaths cs s paths = (r, s1)"
    by (cases "unregisterPaths cs s paths") auto
  from unregisterPaths_parts [OF h] obtain s0 b0 r2 where
    ul: "unregisterLoop (closeEventStream cs s) paths True = (s0, b0)" and
    op: "openEventStream cs s0 = (r2, s1)" and
    r: "r = (case r2 of Some ex \<Rightarrow> Inl ex | None \<Rightarrow> Inr b0)" by blast
  from unregisterLoop_result [OF ul] have
    k: "map fst (watchPoints s0) = filter (\<lambda>k. k \<notin> set paths) (map fst (watchPoints s))" and
    e: "eventStream s0 = None"
    by (simp_all add: closeEventStream_keys closeEventStream_stream)
  from sub have "filter (\<lambda>k. k \<notin> set paths) (map fst (watchPoints s)) = []"
    by (auto simp: filter_empty_conv)
  with k have w0: "watchPoints s0 = []" by simp
  from openEventStream_empty [OF w0, of cs] op have "r2 = None" "s1 = s0" by simp_all
  with r h w0 e show ?thesis by simp
qed

lemma changedPath_userFacing:
  "changedPath root info =
     userFacingPath (root @ (if FileName info = [] then [] else BACKSLASH # FileName info))"
  by (simp add: changedPath_def userFacingPath_def Let_def)

lemma three_units: "3 \<le> length p \<Longrightarrow> \<exists>a b c r. p = a # b # c # r"
  by (cases p; simp; cases "tl p"; simp; cases "tl (tl p)"; simp)

lemma local_not_long: "isAbsoluteLocalPath p \<Longrightarrow> \<not> isLongPath p"
proof
  assume a: "isAbsoluteLocalPath p" and l: "isLongPath p"
  from a have "3 \<le> length p" by (simp add: isAbsoluteLocalPath_def split: if_splits)
  from three_units [OF this] obtain x b c r where p: "p = x # b # c # r" by blast
  from l p have "x = 92" by (simp add: isLongPath_def LONG_PREFIX_def BACKSLASH_def)
  with a p show False by (simp add: isAbsoluteLocalPath_def)
qed

lemma unc_not_local: "isAbsoluteUncPath p \<Longrightarrow> \<not> isAbsoluteLocalPath p"
proof
  assume u: "isAbsoluteUncPath p" and a: "isAbsoluteLocalPath p"
  from a have "3 \<le> length p" by (simp add: isAbsoluteLocalPath_def split: if_splits)
  from three_units [OF this] obtain x b c r where p: "p = x # b # c # r" by blast
  from u p have "x = 92" by (simp add: isAbsoluteUncPath_def BACKSLASH_def)
  with a p show False by (simp add: isAbsoluteLocalPath_def)
qed

lemma convert_local:
  "240 < length p \<Longrightarrow> isAbsoluteLocalPath p \<Longrightarrow> convertToLongPathIfNeeded p = LONG_PREFIX @ p"
  by (simp add: convertToLongPathIfNeeded_def local_not_long)

lemma convert_unc:
  "240 < length p \<Longrightarrow> isAbsoluteUncPath p \<Longrightarrow> \<not> isLongPath p \<Longrightarrow>
     convertToLongPathIfNeeded p = UNC_LONG_PREFIX @ drop 2 p"
  by (simp add: convertToLongPathIfNeeded_def unc_not_local)

lemma userFacing_local:
  "isAbsoluteLocalPath p \<Longrightarrow> userFacingPath (LONG_PREFIX @ p @ x) = p @ x"
proof -
  assume a: "isAbsoluteLocalPath p"
  then have "3 \<le> length p" by (simp add: isAbsoluteLocalPath_def split: if_splits)
  from three_units [OF this] obtain y b c r where p: "p = y # b # c # r" by blast
  with a have "b = 58" by (simp add: isAbsoluteLocalPath_def)
  with p show ?thesis
    by (simp add: userFacingPath_def isLongPath_def isUncLongPath_def LONG_PREFIX_def
        UNC_LONG_PREFIX_def BACKSLASH_def)
qed

lemma userFacing_unc:
  "isAbsoluteUncPath p \<Longrightarrow> userFacingPath (UNC_LONG_PREFIX @ drop 2 p @ x) = p @ x"
proof -
  assume a: "isAbsoluteUncPath p"
  then have "3 \<le> length p" by (simp add: isAbsoluteUncPath_def split: if_splits)
  from three_units [OF this] obtain y b c r where p: "p = y # b # c # r" by blast
  with a have "y = 92" "b = 92" by (simp_all add: isAbsoluteUncPath_def BACKSLASH_def)
  with p show ?thesis
    by (simp add: userFacingPath_def isLongPath_def isUncLongPath_def LONG_PREFIX_def
        UNC_LONG_PREFIX_def BACKSLASH_def)
qed

lemma convert_not_long:
  "\<not> isLongPath p \<Longrightarrow> userFacingPath (convertToLongPathIfNeeded p) = p"
proof -
  assume n: "\<not> isLongPath p"
  consider (short) "length p \<le> 240"
    | (loc) "240 < length p" "isAbsoluteLocalPath p"
    | (unc) "240 < length p" "\<not> isAbsoluteLocalPath p" "isAbsoluteUncPath p"
    | (other) "240 < length p" "\<not> isAbsoluteLocalPath p" "\<not> isAbsoluteUncPath p"
    by fastforce
  then show ?thesis
  proof cases
    case short
    with n show ?thesis by (simp add: convertToLongPathIfNeeded_def userFacingPath_def)
  next
    case loc
    with userFacing_local [of p "[]"] show ?thesis by (simp add: convert_local)
  next
    case unc
    with n userFacing_unc [of p "[]"] show ?thesis by (simp add: convert_unc)
  next
    case other
    with n show ?thesis by (simp add: convertToLongPathIfNeeded_def userFacingPath_def)
  qed
qed

lemma len_cases:
  "length (R :: 'a list) < 8 \<Longrightarrow>
     R = [] \<or> (\<exists>a. R = [a]) \<or> (\<exists>a b. R = [a, b]) \<or> (\<exists>a b c. R = [a, b, c])
     \<or> (\<exists>a b c d. R = [a, b, c, d]) \<or> (\<exists>a b c d e. R = [a, b, c, d, e])
     \<or> (\<exists>a b c d e f. R = [a, b, c, d, e, f]) \<or> (\<exists>a b c d e f g. R = [a, b, c, d, e, f, g])"
proof -
  assume "length R < 8"
  then consider "length R = 0" | "length R = 1" | "length R = 2" | "length R = 3"
    | "length R = 4" | "length R = 5" | "length R = 6" | "length R = 7" by linarith
  then show ?thesis
    by cases (auto simp: length_Suc_conv eval_nat_numeral)
qed

lemma map_of_erase_same: "map_of (erase k m) k = None"
  by (simp add: map_of_None_keys keys_erase)

lemma map_of_emplace_new: "map_of m k = None \<Longrightarrow> map_of (emplace k v m) k = Some v"
  by (simp add: emplace_def map_add_def)

lemma registerPath_already:
  "map_of (win_watchPoints ws) (convertToLongPathIfNeeded p) = Some wp \<Longrightarrow> status wp \<noteq> FINISHED \<Longrightarrow>
     registerPath os ws p = (Some (FileWatcherException ''Already watching path'' (Some p) None), ws)"
  by (simp add: registerPath_def Let_def)

lemma registerPath_finished:
  "map_of (win_watchPoints ws) (convertToLongPathIfNeeded p) = Some wp \<Longrightarrow> status wp = FINISHED \<Longrightarrow>
     registerPath os ws p
       = registerPath os
           (ws\<lparr>win_watchPoints := erase (convertToLongPathIfNeeded p) (win_watchPoints ws)\<rparr>) p"
  by (simp add: registerPath_def Let_def map_of_erase_same)

lemma registerPath_fresh:
  "map_of (win_watchPoints ws) (convertToLongPathIfNeeded p) = None \<Longrightarrow>
   createFileError os = None \<Longrightarrow> readDirectoryChangesError os = None \<Longrightarrow>
     fst (registerPath os ws p) = None
     \<and> map_of (win_watchPoints (snd (registerPath os ws p))) (convertToLongPathIfNeeded p)
         = Some \<lparr>path = convertToLongPathIfNeeded p, status = LISTENING\<rparr>"
  by (simp add: registerPath_def Let_def new_WatchPoint_def listen_def map_of_emplace_new)

lemma find_none: "\<forall>x. \<not> P x \<Longrightarrow> find P xs = None"
  by (induction xs) auto

lemma openEventStream_succeeds:
  "\<not> arrayCreateFails cs \<Longrightarrow> \<not> streamCreateFails cs \<Longrightarrow> \<forall>p. \<not> stringCreateFails cs p \<Longrightarrow>
     fst (openEventStream cs s) = None"
  by (simp add: openEventStream_def Let_def find_none)

lemma unregisterPath_keys:
  "map fst (win_watchPoints (unregisterPath ws p))
     = filter (\<lambda>k. k \<noteq> convertToLongPathIfNeeded p) (map fst (win_watchPoints ws))"
  by (auto simp: unregisterPath_def Let_def keys_erase erase_count_0 intro: filter_True [symmetric])

lemma unregisterPath_unknown:
  "map_of (win_watchPoints ws) (convertToLongPathIfNeeded p) = None \<Longrightarrow> unregisterPath ws p = ws"
  by (simp add: unregisterPath_def Let_def erase_count_def)

section \<open>Registering a path that is already watched\<close>

text \<open>
  C2.  Registering a path that already has a watch point raises the error
  ``Already watching path''.  On macOS: when a path of the list is already in the map,
  the command ends with that exception for a path of the list (the first offending
  one), and for a list of the one path \<open>p\<close> it names \<open>p\<close>.  On Windows: when the map has
  a watch point under the long form of \<open>p\<close> whose status is not \<open>FINISHED\<close>, the
  exception names \<open>p\<close> and the server is unchanged; when its status is \<open>FINISHED\<close>,
  registering does exactly what it does on the map with that entry erased, and if
  Windows opens the directory and starts the read, \<open>p\<close> is afterwards watched by a new
  watch point that is \<open>LISTENING\<close>.
\<close>

theorem register_already_watched:
  "(p \<in> set paths \<and> map_of (watchPoints s) p \<noteq> None \<longrightarrow>
      (\<exists>q\<in>set paths. fst (registerPaths cs s paths)
          = Inl (FileWatcherException ''Already watching path'' (Some q) None)))
   \<and> (map_of (watchPoints s) p \<noteq> None \<longrightarrow>
        fst (registerPaths cs s [p])
          = Inl (FileWatcherException ''Already watching path'' (Some p) None))
   \<and> (\<forall>wp. map_of (win_watchPoints ws) (convertToLongPathIfNeeded p) = Some wp
             \<and> status wp \<noteq> FINISHED \<longrightarrow>
        registerPath os ws p
          = (Some (FileWatcherException ''Already watching path'' (Some p) None), ws))
   \<and> (\<forall>wp. map_of (win_watchPoints ws) (convertToLongPathIfNeeded p) = Some wp
             \<and> status wp = FINISHED \<longrightarrow>
        registerPath os ws p
          = registerPath os
              (ws\<lparr>win_watchPoints := erase (convertToLongPathIfNeeded p) (win_watchPoints ws)\<rparr>) p
        \<and> (createFileError os = None \<and> readDirectoryChangesError os = None \<longrightarrow>
             fst (registerPath os ws p) = None
             \<and> map_of (win_watchPoints (snd (registerPath os ws p))) (convertToLongPathIfNeeded p)
                 = Some \<lparr>path = convertToLongPathIfNeeded p, status = LISTENING\<rparr>))"
proof -
  have a: "\<exists>q\<in>set paths. fst (registerPaths cs s paths)
          = Inl (FileWatcherException ''Already watching path'' (Some q) None)"
    if "p \<in> set paths \<and> map_of (watchPoints s) p \<noteq> None"
    using that registerPaths_already [of p paths s cs] by blast
  have b: "fst (registerPaths cs s [p])
          = Inl (FileWatcherException ''Already watching path'' (Some p) None)"
    if "map_of (watchPoints s) p \<noteq> None"
    using that registerPaths_already [of p "[p]" s cs] by simp
  have c: "registerPath os ws p
          = (Some (FileWatcherException ''Already watching path'' (Some p) None), ws)"
    if "map_of (win_watchPoints ws) (convertToLongPathIfNeeded p) = Some wp \<and> status wp \<noteq> FINISHED"
    for wp using that registerPath_already [of ws p wp os] by blast
  have d: "registerPath os ws p
          = registerPath os
              (ws\<lparr>win_watchPoints := erase (convertToLongPathIfNeeded p) (win_watchPoints ws)\<rparr>) p
        \<and> (createFileError os = None \<and> readDirectoryChangesError os = None \<longrightarrow>
             fst (registerPath os ws p) = None
             \<and> map_of (win_watchPoints (snd (registerPath os ws p))) (convertToLongPathIfNeeded p)
                 = Some \<lparr>path = convertToLongPathIfNeeded p, status = LISTENING\<rparr>)"
    if h: "map_of (win_watchPoints ws) (convertToLongPathIfNeeded p) = Some wp \<and> status wp = FINISHED"
    for wp
  proof -
    let ?ws = "ws\<lparr>win_watchPoints := erase (convertToLongPathIfNeeded p) (win_watchPoints ws)\<rparr>"
    from h have e: "registerPath os ws p = registerPath os ?ws p"
      using registerPath_finished [of ws p wp os] by blast
    have "map_of (win_watchPoints ?ws) (convertToLongPathIfNeeded p) = None"
      by (simp add: map_of_erase_same)
    from registerPath_fresh [OF this, of os] e show ?thesis by simp
  qed
  show ?thesis using a b c d by blast
qed

text \<open>C2, witness: registering \<open>/tmp/a\<close> again on macOS; registering a Windows root
  again while its watch point is \<open>LISTENING\<close>, and while it is \<open>FINISHED\<close>.\<close>

theorem register_already_watched_witness:
  "u16 ''/tmp/a'' \<in> set [u16 ''/tmp/b'', u16 ''/tmp/a'']
   \<and> map_of (watchPoints \<lparr>watchPoints = [(u16 ''/tmp/a'', HISTORICAL)], lastSeenEventId = 5,
        finishedProcessingHistoricalEvents = True, eventStream = None\<rparr>) (u16 ''/tmp/a'') \<noteq> None
   \<and> (\<exists>q\<in>set [u16 ''/tmp/b'', u16 ''/tmp/a'']. fst (registerPaths
         \<lparr>pendingEvents = [], arrayCreateFails = False, stringCreateFails = (\<lambda>p. False),
           streamCreateFails = False\<rparr>
         \<lparr>watchPoints = [(u16 ''/tmp/a'', HISTORICAL)], lastSeenEventId = 5,
           finishedProcessingHistoricalEvents = True, eventStream = None\<rparr>
         [u16 ''/tmp/b'', u16 ''/tmp/a''])
       = Inl (FileWatcherException ''Already watching path'' (Some q) None))
   \<and> fst (registerPaths
         \<lparr>pendingEvents = [], arrayCreateFails = False, stringCreateFails = (\<lambda>p. False),
           streamCreateFails = False\<rparr>
         \<lparr>watchPoints = [(u16 ''/tmp/a'', HISTORICAL)], lastSeenEventId = 5,
           finishedProcessingHistoricalEvents = True, eventStream = None\<rparr>
         [u16 ''/tmp/a''])
       = Inl (FileWatcherException ''Already watching path'' (Some (u16 ''/tmp/a'')) None)
   \<and> registerPath
         \<lparr>createFileError = None, readDirectoryChangesError = None,
           validDirectory = True, validDirectoryOnListen = True\<rparr>
         \<lparr>win_watchPoints = [([67, 58, BACKSLASH, 100], \<lparr>path = [67, 58, BACKSLASH, 100], status = LISTENING\<rparr>)],
           terminated = False\<rparr>
         [67, 58, BACKSLASH, 100]
       = (Some (FileWatcherException ''Already watching path'' (Some [67, 58, BACKSLASH, 100]) None),
          \<lparr>win_watchPoints = [([67, 58, BACKSLASH, 100], \<lparr>path = [67, 58, BACKSLASH, 100], status = LISTENING\<rparr>)],
           terminated = False\<rparr>)
   \<and> fst (registerPath
         \<lparr>createFileError = None, readDirectoryChangesError = None,
           validDirectory = True, validDirectoryOnListen = True\<rparr>
         \<lparr>win_watchPoints = [([67, 58, BACKSLASH, 100], \<lparr>path = [67, 58, BACKSLASH, 100], status = FINISHED\<rparr>)],
           terminated = False\<rparr>
         [67, 58, BACKSLASH, 100]) = None
   \<and> registerPath
         \<lparr>createFileError = None, readDirectoryChangesError = None,
           validDirectory = True, validDirectoryOnListen = True\<rparr>
         \<lparr>win_watchPoints = [([67, 58, BACKSLASH, 100], \<lparr>path = [67, 58, BACKSLASH, 100], status = FINISHED\<rparr>)],
           terminated = False\<rparr>
         [67, 58, BACKSLASH, 100]
       = (None,
          \<lparr>win_watchPoints = [([67, 58, BACKSLASH, 100], \<lparr>path = [67, 58, BACKSLASH, 100], status = LISTENING\<rparr>)],
           terminated = False\<rparr>)"
proof -
  let ?a = "u16 ''/tmp/a''"
  let ?l = "[u16 ''/tmp/b'', u16 ''/tmp/a'']"
  let ?s = "\<lparr>watchPoints = [(u16 ''/tmp/a'', HISTORICAL)], lastSeenEventId = 5,
           finishedProcessingHistoricalEvents = True, eventStream = None\<rparr>"
  let ?cs = "\<lparr>pendingEvents = [], arrayCreateFails = False, stringCreateFails = (\<lambda>p. False),
           streamCreateFails = False\<rparr>"
  let ?R = "[67, 58, BACKSLASH, 100] :: u16string"
  let ?os = "\<lparr>createFileError = None, readDirectoryChangesError = None,
           validDirectory = True, validDirectoryOnListen = True\<rparr>"
  let ?wl = "\<lparr>path = ?R, status = LISTENING\<rparr>"
  let ?wf = "\<lparr>path = ?R, status = FINISHED\<rparr>"
  let ?w1 = "\<lparr>win_watchPoints = [(?R, ?wl)], terminated = False\<rparr>"
  let ?w2 = "\<lparr>win_watchPoints = [(?R, ?wf)], terminated = False\<rparr>"
  have m: "?a \<in> set ?l" by simp
  have h: "map_of (watchPoints ?s) ?a \<noteq> None" by simp
  have cv: "convertToLongPathIfNeeded ?R = ?R" by (simp add: convertToLongPathIfNeeded_def)
  have h1: "map_of (win_watchPoints ?w1) (convertToLongPathIfNeeded ?R) = Some ?wl
            \<and> status ?wl \<noteq> FINISHED" by (simp add: cv)
  have h2: "map_of (win_watchPoints ?w2) (convertToLongPathIfNeeded ?R) = Some ?wf
            \<and> status ?wf = FINISHED" by (simp add: cv)
  have o: "createFileError ?os = None \<and> readDirectoryChangesError ?os = None" by simp
  have r0: "\<exists>q\<in>set ?l. fst (registerPaths ?cs ?s ?l)
       = Inl (FileWatcherException ''Already watching path'' (Some q) None)"
    using register_already_watched [where p = ?a and paths = ?l and s = ?s and cs = ?cs,
            THEN conjunct1, THEN mp, OF conjI [OF m h]] .
  have r1: "fst (registerPaths ?cs ?s [?a])
       = Inl (FileWatcherException ''Already watching path'' (Some ?a) None)"
    using register_already_watched [where p = ?a and s = ?s and cs = ?cs,
            THEN conjunct2, THEN conjunct1, THEN mp, OF h] .
  have r2: "registerPath ?os ?w1 ?R
       = (Some (FileWatcherException ''Already watching path'' (Some ?R) None), ?w1)"
    using register_already_watched [where p = ?R and ws = ?w1 and os = ?os,
            THEN conjunct2, THEN conjunct2, THEN conjunct1, THEN spec, THEN mp, OF h1] .
  have r3: "fst (registerPath ?os ?w2 ?R) = None"
    using register_already_watched [where p = ?R and ws = ?w2 and os = ?os,
            THEN conjunct2, THEN conjunct2, THEN conjunct2, THEN spec, THEN mp, OF h2,
            THEN conjunct2, THEN mp, OF o, THEN conjunct1] .
  have r4: "registerPath ?os ?w2 ?R = (None, ?w1)"
    by (simp add: registerPath_def Let_def cv erase_def emplace_def new_WatchPoint_def listen_def)
  show ?thesis using m h r0 r1 r2 r3 r4 by blast
qed

section \<open>Long paths on Windows\<close>

text \<open>
  C5.  Round trip of the long-path form.  A path of at most 240 units, or one that is
  already long, is left unchanged.  An absolute local path of more than 240 units gets
  the long prefix, an absolute UNC path of more than 240 units (not already long) gets
  the UNC long prefix in place of its two leading backslashes, and in both cases the
  path reported for an entry of a watch point with that root is the original path
  \<open>P\<close>, followed by a backslash and the file name when the entry has one.  For every
  path that is not already long, the reverse transform restores \<open>P\<close> from its
  registered form.
\<close>

theorem convertToLongPathIfNeeded_roundtrip:
  "(length P \<le> 240 \<or> isLongPath P \<longrightarrow> convertToLongPathIfNeeded P = P)
   \<and> (240 < length P \<and> isAbsoluteLocalPath P \<longrightarrow>
        convertToLongPathIfNeeded P = LONG_PREFIX @ P
        \<and> changedPath (convertToLongPathIfNeeded P) info
            = P @ (if FileName info = [] then [] else BACKSLASH # FileName info))
   \<and> (240 < length P \<and> isAbsoluteUncPath P \<and> \<not> isLongPath P \<longrightarrow>
        convertToLongPathIfNeeded P = UNC_LONG_PREFIX @ drop 2 P
        \<and> changedPath (convertToLongPathIfNeeded P) info
            = P @ (if FileName info = [] then [] else BACKSLASH # FileName info))
   \<and> (\<not> isLongPath P \<longrightarrow> userFacingPath (convertToLongPathIfNeeded P) = P)"
proof -
  let ?x = "if FileName info = [] then [] else BACKSLASH # FileName info"
  have a: "convertToLongPathIfNeeded P = P" if "length P \<le> 240 \<or> isLongPath P"
    using that by (auto simp: convertToLongPathIfNeeded_def)
  have b: "convertToLongPathIfNeeded P = LONG_PREFIX @ P
        \<and> changedPath (convertToLongPathIfNeeded P) info = P @ ?x"
    if "240 < length P" "isAbsoluteLocalPath P"
    using that userFacing_local [of P ?x]
    by (simp only: convert_local changedPath_userFacing append_assoc simp_thms)
  have c: "convertToLongPathIfNeeded P = UNC_LONG_PREFIX @ drop 2 P
        \<and> changedPath (convertToLongPathIfNeeded P) info = P @ ?x"
    if "240 < length P" "isAbsoluteUncPath P" "\<not> isLongPath P"
    using that userFacing_unc [of P ?x]
    by (simp only: convert_unc changedPath_userFacing append_assoc simp_thms)
  show ?thesis using a b c convert_not_long [of P] by blast
qed

text \<open>C5, witness: a local path of 241 units and a UNC path of 242 units.\<close>

theorem convertToLongPathIfNeeded_roundtrip_witness:
  "240 < length ([67, 58, BACKSLASH] @ replicate 238 (97 :: 16 word))
   \<and> isAbsoluteLocalPath ([67, 58, BACKSLASH] @ replicate 238 97)
   \<and> convertToLongPathIfNeeded ([67, 58, BACKSLASH] @ replicate 238 97)
       = LONG_PREFIX @ [67, 58, BACKSLASH] @ replicate 238 97
   \<and> changedPath (convertToLongPathIfNeeded ([67, 58, BACKSLASH] @ replicate 238 97))
        \<lparr>Action = FILE_ACTION_ADDED, FileName = u16 ''f.txt''\<rparr>
       = ([67, 58, BACKSLASH] @ replicate 238 97) @ BACKSLASH # u16 ''f.txt''
   \<and> 240 < length ([BACKSLASH, BACKSLASH, 115, BACKSLASH] @ replicate 238 (97 :: 16 word))
   \<and> isAbsoluteUncPath ([BACKSLASH, BACKSLASH, 115, BACKSLASH] @ replicate 238 97)
   \<and> \<not> isLongPath ([BACKSLASH, BACKSLASH, 115, BACKSLASH] @ replicate 238 97)
   \<and> convertToLongPathIfNeeded ([BACKSLASH, BACKSLASH, 115, BACKSLASH] @ replicate 238 97)
       = UNC_LONG_PREFIX @ drop 2 ([BACKSLASH, BACKSLASH, 115, BACKSLASH] @ replicate 238 97)
   \<and> changedPath (convertToLongPathIfNeeded ([BACKSLASH, BACKSLASH, 115, BACKSLASH] @ replicate 238 97))
        \<lparr>Action = FILE_ACTION_MODIFIED, FileName = []\<rparr>
       = [BACKSLASH, BACKSLASH, 115, BACKSLASH] @ replicate 238 97
   \<and> userFacingPath (convertToLongPathIfNeeded ([BACKSLASH, BACKSLASH, 115, BACKSLASH] @ replicate 238 97))
       = [BACKSLASH, BACKSLASH, 115, BACKSLASH] @ replicate 238 97
   \<and> length [67, 58, BACKSLASH, 100 :: 16 word] \<le> 240
   \<and> convertToLongPathIfNeeded [67, 58, BACKSLASH, 100] = [67, 58, BACKSLASH, 100]
   \<and> isLongPath (LONG_PREFIX @ [67, 58, BACKSLASH] @ replicate 238 97)
   \<and> convertToLongPathIfNeeded (LONG_PREFIX @ [67, 58, BACKSLASH] @ replicate 238 97)
       = LONG_PREFIX @ [67, 58, BACKSLASH] @ replicate 238 97"
proof -
  let ?P = "[67, 58, BACKSLASH] @ replicate 238 (97 :: 16 word)"
  let ?i = "\<lparr>Action = FILE_ACTION_ADDED, FileName = u16 ''f.txt''\<rparr>"
  let ?Q = "[BACKSLASH, BACKSLASH, 115, BACKSLASH] @ replicate 238 (97 :: 16 word)"
  let ?j = "\<lparr>Action = FILE_ACTION_MODIFIED, FileName = []\<rparr>"
  have l1: "240 < length ?P" by simp
  have a1: "isAbsoluteLocalPath ?P" by (simp add: isAbsoluteLocalPath_def)
  have i1: "(if FileName ?i = [] then [] else BACKSLASH # FileName ?i) = BACKSLASH # u16 ''f.txt''"
    by (simp add: u16_def)
  have l2: "240 < length ?Q" by simp
  have a2: "isAbsoluteUncPath ?Q" by (simp add: isAbsoluteUncPath_def)
  have n2: "\<not> isLongPath ?Q" by (simp add: isLongPath_def LONG_PREFIX_def BACKSLASH_def)
  have i2: "?Q @ (if FileName ?j = [] then [] else BACKSLASH # FileName ?j) = ?Q"
    by simp
  have r1: "convertToLongPathIfNeeded ?P = LONG_PREFIX @ ?P
      \<and> changedPath (convertToLongPathIfNeeded ?P) ?i = ?P @ BACKSLASH # u16 ''f.txt''"
    using convertToLongPathIfNeeded_roundtrip
            [of ?P ?i, THEN conjunct2, THEN conjunct1, THEN mp, OF conjI [OF l1 a1]]
    unfolding i1 .
  have r2: "convertToLongPathIfNeeded ?Q = UNC_LONG_PREFIX @ drop 2 ?Q
      \<and> changedPath (convertToLongPathIfNeeded ?Q) ?j = ?Q"
    using convertToLongPathIfNeeded_roundtrip
            [of ?Q ?j, THEN conjunct2, THEN conjunct2, THEN conjunct1, THEN mp,
             OF conjI [OF l2 conjI [OF a2 n2]]]
    unfolding i2 .
  have r3: "userFacingPath (convertToLongPathIfNeeded ?Q) = ?Q"
    using convertToLongPathIfNeeded_roundtrip
            [of ?Q ?j, THEN conjunct2, THEN conjunct2, THEN conjunct2, THEN mp, OF n2] .
  let ?S = "[67, 58, BACKSLASH, 100 :: 16 word]"
  have l3: "length ?S \<le> 240" by simp
  have r4: "convertToLongPathIfNeeded ?S = ?S"
    using convertToLongPathIfNeeded_roundtrip [of ?S ?j, THEN conjunct1, THEN mp, OF disjI1 [OF l3]] .
  let ?L = "LONG_PREFIX @ [67, 58, BACKSLASH] @ replicate 238 (97 :: 16 word)"
  have l5: "isLongPath ?L" by (simp add: isLongPath_def LONG_PREFIX_def)
  have r5: "convertToLongPathIfNeeded ?L = ?L"
    using convertToLongPathIfNeeded_roundtrip [of ?L ?j, THEN conjunct1, THEN mp, OF disjI2 [OF l5]] .
  show ?thesis using l1 a1 l2 a2 n2 r1 r2 r3 l3 r4 l5 r5 by blast
qed

lemma no_question_3: "63 \<notin> set name \<Longrightarrow> take 3 name \<noteq> [92, 63, 92 :: 16 word]"
  by (metis in_set_takeD list.set_intros(1) list.set_intros(2))

lemma no_question_2: "63 \<notin> set name \<Longrightarrow> take 2 name \<noteq> [63, 92 :: 16 word]"
  by (metis in_set_takeD list.set_intros(1))

lemma userFacing_append_root:
  assumes "R \<noteq> [BACKSLASH, BACKSLASH, 63]"
    and "R \<noteq> [BACKSLASH, BACKSLASH, 63, BACKSLASH, 85, 78, 67]"
    and "length R \<le> 1 \<longrightarrow> 63 \<notin> set name"
  shows "userFacingPath (R @ BACKSLASH # name) = userFacingPath R @ BACKSLASH # name"
proof (cases "length R < 8")
  case False
  then show ?thesis
    by (simp add: userFacingPath_def isLongPath_def isUncLongPath_def)
next
  case True
  from len_cases [OF this] assms show ?thesis
    by (elim disjE exE)
       (auto simp: userFacingPath_def isLongPath_def isUncLongPath_def LONG_PREFIX_def
          UNC_LONG_PREFIX_def BACKSLASH_def dest: no_question_3 no_question_2)
qed

text \<open>
  C9.  For an entry without file name the reported path is the user-facing form of the
  root; otherwise it is the user-facing form of the root followed by one backslash and
  the file name, so the user-facing root is a prefix of every reported path.  The roots
  are those of watch points, which exist only once Windows has opened the root as a
  directory and started to read its changes; and the file names are those of Windows,
  which contain no question mark.  This leaves out the two strings
  backslash-backslash-question-mark and the UNC long prefix without its final backslash
  as roots, and asks for a file name without question mark only when the root has at
  most one unit.
\<close>

theorem changedPath_extends_userFacing_root:
  "(FileName info = [] \<longrightarrow> changedPath R info = userFacingPath R)
   \<and> (R \<noteq> [BACKSLASH, BACKSLASH, 63]
       \<and> R \<noteq> [BACKSLASH, BACKSLASH, 63, BACKSLASH, 85, 78, 67]
       \<and> (length R \<le> 1 \<longrightarrow> 63 \<notin> set (FileName info)) \<longrightarrow>
        changedPath R info
          = userFacingPath R @ (if FileName info = [] then [] else BACKSLASH # FileName info)
        \<and> prefix (userFacingPath R) (changedPath R info))"
proof (cases "FileName info = []")
  case True
  then show ?thesis by (simp add: changedPath_userFacing)
next
  case False
  then show ?thesis using userFacing_append_root [of R "FileName info"]
    by (simp add: changedPath_userFacing)
qed

text \<open>C9, witness: the root \<open>C:\<close> with its backslash, an entry with a file name and one
  without; and the root that is a single backslash.\<close>

theorem changedPath_extends_userFacing_root_witness:
  "[67, 58, BACKSLASH] \<noteq> [BACKSLASH, BACKSLASH, 63]
   \<and> [67, 58, BACKSLASH] \<noteq> [BACKSLASH, BACKSLASH, 63, BACKSLASH, 85, 78, 67]
   \<and> userFacingPath [67, 58, BACKSLASH] = [67, 58, BACKSLASH]
   \<and> changedPath [67, 58, BACKSLASH] \<lparr>Action = FILE_ACTION_ADDED, FileName = u16 ''a.txt''\<rparr>
       = [67, 58, BACKSLASH] @ BACKSLASH # u16 ''a.txt''
   \<and> prefix [67, 58, BACKSLASH]
        (changedPath [67, 58, BACKSLASH] \<lparr>Action = FILE_ACTION_ADDED, FileName = u16 ''a.txt''\<rparr>)
   \<and> changedPath [67, 58, BACKSLASH] \<lparr>Action = FILE_ACTION_REMOVED, FileName = []\<rparr>
       = [67, 58, BACKSLASH]
   \<and> length [BACKSLASH] \<le> 1
   \<and> 63 \<notin> set (FileName \<lparr>Action = FILE_ACTION_ADDED, FileName = u16 ''a.txt''\<rparr>)
   \<and> changedPath [BACKSLASH] \<lparr>Action = FILE_ACTION_ADDED, FileName = u16 ''a.txt''\<rparr>
       = [BACKSLASH] @ BACKSLASH # u16 ''a.txt''"
proof -
  let ?R = "[67, 58, BACKSLASH]"
  let ?B = "[BACKSLASH]"
  let ?i = "\<lparr>Action = FILE_ACTION_ADDED, FileName = u16 ''a.txt''\<rparr>"
  let ?j = "\<lparr>Action = FILE_ACTION_REMOVED, FileName = []\<rparr>"
  have h1: "?R \<noteq> [BACKSLASH, BACKSLASH, 63]" by (simp add: BACKSLASH_def)
  have h2: "?R \<noteq> [BACKSLASH, BACKSLASH, 63, BACKSLASH, 85, 78, 67]" by simp
  have h3: "length ?R \<le> 1 \<longrightarrow> 63 \<notin> set (FileName ?i)" by simp
  have b1: "?B \<noteq> [BACKSLASH, BACKSLASH, 63]" by simp
  have b2: "?B \<noteq> [BACKSLASH, BACKSLASH, 63, BACKSLASH, 85, 78, 67]" by simp
  have bl: "length ?B \<le> 1" by simp
  have bq: "63 \<notin> set (FileName ?i)" by (simp add: u16_def)
  then have b3: "length ?B \<le> 1 \<longrightarrow> 63 \<notin> set (FileName ?i)" by blast
  have u: "userFacingPath ?R = ?R"
    by (simp add: userFacingPath_def isLongPath_def)
  have ub: "userFacingPath ?B = ?B"
    by (simp add: userFacingPath_def isLongPath_def)
  have i1: "(if FileName ?i = [] then [] else BACKSLASH # FileName ?i) = BACKSLASH # u16 ''a.txt''"
    by (simp add: u16_def)
  have e: "FileName ?j = []" by simp
  have a: "changedPath ?R ?i = ?R @ BACKSLASH # u16 ''a.txt'' \<and> prefix ?R (changedPath ?R ?i)"
    using changedPath_extends_userFacing_root [of ?i ?R, THEN conjunct2, THEN mp,
            OF conjI [OF h1 conjI [OF h2 h3]]]
    unfolding i1 u .
  have b: "changedPath ?R ?j = ?R"
    using changedPath_extends_userFacing_root [of ?j ?R, THEN conjunct1, THEN mp, OF e]
    unfolding u .
  have c: "changedPath ?B ?i = ?B @ BACKSLASH # u16 ''a.txt''"
    using changedPath_extends_userFacing_root [of ?i ?B, THEN conjunct2, THEN mp,
            OF conjI [OF b1 conjI [OF b2 b3]], THEN conjunct1]
    unfolding i1 ub .
  show ?thesis using h1 h2 u a b bl bq c by blast
qed

section \<open>The completion routine on Windows\<close>

text \<open>
  C6 (as amended).  When the completion routine runs with \<open>ERROR_ACCESS_DENIED\<close> for
  a watch point that is \<open>LISTENING\<close> and whose path is no longer a directory, the
  first callback is a REMOVED event for the root.  With zero bytes transferred (what
  Win32 passes to a completion routine together with an error code), or when the server
  is terminating, exactly one REMOVED event for the root is emitted.  The status of the
  watch point becomes \<open>FINISHED\<close> unless the server is terminating; when it is, the
  status stays \<open>NOT_LISTENING\<close>.
\<close>

theorem handleEventsInBuffer_access_denied:
  "status wp = LISTENING \<and> \<not> validDirectory os \<longrightarrow>
     (\<exists>rest. snd (handleEventsInBuffer term os wp ERROR_ACCESS_DENIED buffer n)
               = ReportChange FILE_EVENT_REMOVED (path wp) # rest)
     \<and> (term \<or> n = 0 \<longrightarrow>
          length (filter (\<lambda>c. c = ReportChange FILE_EVENT_REMOVED (path wp))
                    (snd (handleEventsInBuffer term os wp ERROR_ACCESS_DENIED buffer n))) = 1)
     \<and> (\<not> term \<and> n = 0 \<longrightarrow>
          status (fst (handleEventsInBuffer term os wp ERROR_ACCESS_DENIED buffer n)) = FINISHED)
     \<and> (term \<longrightarrow>
          status (fst (handleEventsInBuffer term os wp ERROR_ACCESS_DENIED buffer n)) = NOT_LISTENING)"
  by (auto simp: handleEventsInBuffer_def win_handleEvents_def Let_def ERROR_ACCESS_DENIED_def
        ERROR_OPERATION_ABORTED_def ERROR_SUCCESS_def FILE_EVENT_REMOVED_def
        FILE_EVENT_INVALIDATE_def split: prod.splits sum.splits ListenResult.splits)

text \<open>C6, witness: a listening watch point and zero bytes, with a server that is not
  terminating and with one that is.\<close>

theorem handleEventsInBuffer_access_denied_witness:
  "status \<lparr>path = [67, 58, BACKSLASH, 100], status = LISTENING\<rparr> = LISTENING
   \<and> \<not> validDirectory \<lparr>createFileError = None, readDirectoryChangesError = Some ERROR_ACCESS_DENIED,
                         validDirectory = False, validDirectoryOnListen = False\<rparr>
   \<and> handleEventsInBuffer False
        \<lparr>createFileError = None, readDirectoryChangesError = Some ERROR_ACCESS_DENIED,
          validDirectory = False, validDirectoryOnListen = False\<rparr>
        \<lparr>path = [67, 58, BACKSLASH, 100], status = LISTENING\<rparr>
        ERROR_ACCESS_DENIED (\<lparr>Action = 0, FileName = []\<rparr>, []) 0
      = (\<lparr>path = [67, 58, BACKSLASH, 100], status = FINISHED\<rparr>,
         [ReportChange FILE_EVENT_REMOVED [67, 58, BACKSLASH, 100],
          ReportChange FILE_EVENT_INVALIDATE [67, 58, BACKSLASH, 100]])
   \<and> length (filter (\<lambda>c. c = ReportChange FILE_EVENT_REMOVED
                                (path \<lparr>path = [67, 58, BACKSLASH, 100], status = LISTENING\<rparr>))
         (snd (handleEventsInBuffer False
        \<lparr>createFileError = None, readDirectoryChangesError = Some ERROR_ACCESS_DENIED,
          validDirectory = False, validDirectoryOnListen = False\<rparr>
        \<lparr>path = [67, 58, BACKSLASH, 100], status = LISTENING\<rparr>
        ERROR_ACCESS_DENIED (\<lparr>Action = 0, FileName = []\<rparr>, []) 0))) = 1
   \<and> status (fst (handleEventsInBuffer False
        \<lparr>createFileError = None, readDirectoryChangesError = Some ERROR_ACCESS_DENIED,
          validDirectory = False, validDirectoryOnListen = False\<rparr>
        \<lparr>path = [67, 58, BACKSLASH, 100], status = LISTENING\<rparr>
        ERROR_ACCESS_DENIED (\<lparr>Action = 0, FileName = []\<rparr>, []) 0)) = FINISHED
   \<and> length (filter (\<lambda>c. c = ReportChange FILE_EVENT_REMOVED
                                (path \<lparr>path = [67, 58, BACKSLASH, 100], status = LISTENING\<rparr>))
         (snd (handleEventsInBuffer True
        \<lparr>createFileError = None, readDirectoryChangesError = Some ERROR_ACCESS_DENIED,
          validDirectory = False, validDirectoryOnListen = False\<rparr>
        \<lparr>path = [67, 58, BACKSLASH, 100], status = LISTENING\<rparr>
        ERROR_ACCESS_DENIED (\<lparr>Action = 0, FileName = []\<rparr>, []) 0))) = 1
   \<and> status (fst (handleEventsInBuffer True
        \<lparr>createFileError = None, readDirectoryChangesError = Some ERROR_ACCESS_DENIED,
          validDirectory = False, validDirectoryOnListen = False\<rparr>
        \<lparr>path = [67, 58, BACKSLASH, 100], status = LISTENING\<rparr>
        ERROR_ACCESS_DENIED (\<lparr>Action = 0, FileName = []\<rparr>, []) 0)) = NOT_LISTENING"
proof -
  let ?wp = "\<lparr>path = [67, 58, BACKSLASH, 100], status = LISTENING\<rparr>"
  let ?os = "\<lparr>createFileError = None, readDirectoryChangesError = Some ERROR_ACCESS_DENIED,
          validDirectory = False, validDirectoryOnListen = False\<rparr>"
  let ?b = "(\<lparr>Action = 0, FileName = []\<rparr>, []) :: FILE_NOTIFY_INFORMATION \<times> FILE_NOTIFY_INFORMATION list"
  have h: "status ?wp = LISTENING \<and> \<not> validDirectory ?os" by simp
  have g1: "False \<or> (0 :: DWORD) = 0" by simp
  have g2: "\<not> False \<and> (0 :: DWORD) = 0" by simp
  have g3: "True \<or> (0 :: DWORD) = 0" by simp
  have e: "handleEventsInBuffer False ?os ?wp ERROR_ACCESS_DENIED ?b 0
      = (\<lparr>path = [67, 58, BACKSLASH, 100], status = FINISHED\<rparr>,
         [ReportChange FILE_EVENT_REMOVED [67, 58, BACKSLASH, 100],
          ReportChange FILE_EVENT_INVALIDATE [67, 58, BACKSLASH, 100]])"
    by (simp add: handleEventsInBuffer_def win_handleEvents_def ERROR_ACCESS_DENIED_def
        ERROR_OPERATION_ABORTED_def ERROR_SUCCESS_def)
  note t = handleEventsInBuffer_access_denied [of ?wp ?os False ?b 0, THEN mp, OF h]
  note u = handleEventsInBuffer_access_denied [of ?wp ?os True ?b 0, THEN mp, OF h]
  have c1: "length (filter (\<lambda>c. c = ReportChange FILE_EVENT_REMOVED (path ?wp))
         (snd (handleEventsInBuffer False ?os ?wp ERROR_ACCESS_DENIED ?b 0))) = 1"
    using t [THEN conjunct2, THEN conjunct1, THEN mp, OF g1] .
  have f1: "status (fst (handleEventsInBuffer False ?os ?wp ERROR_ACCESS_DENIED ?b 0)) = FINISHED"
    using t [THEN conjunct2, THEN conjunct2, THEN conjunct1, THEN mp, OF g2] .
  have c2: "length (filter (\<lambda>c. c = ReportChange FILE_EVENT_REMOVED (path ?wp))
         (snd (handleEventsInBuffer True ?os ?wp ERROR_ACCESS_DENIED ?b 0))) = 1"
    using u [THEN conjunct2, THEN conjunct1, THEN mp, OF g3] .
  have f2: "status (fst (handleEventsInBuffer True ?os ?wp ERROR_ACCESS_DENIED ?b 0)) = NOT_LISTENING"
    using u [THEN conjunct2, THEN conjunct2, THEN conjunct2, THEN mp, OF TrueI] .
  show ?thesis using h e c1 f1 c2 f2 by blast
qed

text \<open>
  C6, counterexamples to the claim for every run of the completion routine: a watch
  point that is not \<open>LISTENING\<close> (here \<open>CANCELLED\<close>) is left alone and nothing is
  emitted; and when the server is terminating the REMOVED event is emitted but the
  status stays \<open>NOT_LISTENING\<close>.
\<close>

theorem handleEventsInBuffer_access_denied_counterexample:
  "handleEventsInBuffer False
        \<lparr>createFileError = None, readDirectoryChangesError = Some ERROR_ACCESS_DENIED,
          validDirectory = False, validDirectoryOnListen = False\<rparr>
        \<lparr>path = [67, 58, BACKSLASH, 100], status = CANCELLED\<rparr>
        ERROR_ACCESS_DENIED (\<lparr>Action = 0, FileName = []\<rparr>, []) 0
      = (\<lparr>path = [67, 58, BACKSLASH, 100], status = CANCELLED\<rparr>, [])
   \<and> handleEventsInBuffer True
        \<lparr>createFileError = None, readDirectoryChangesError = Some ERROR_ACCESS_DENIED,
          validDirectory = False, validDirectoryOnListen = False\<rparr>
        \<lparr>path = [67, 58, BACKSLASH, 100], status = LISTENING\<rparr>
        ERROR_ACCESS_DENIED (\<lparr>Action = 0, FileName = []\<rparr>, []) 0
      = (\<lparr>path = [67, 58, BACKSLASH, 100], status = NOT_LISTENING\<rparr>,
         [ReportChange FILE_EVENT_REMOVED [67, 58, BACKSLASH, 100]])"
  by (simp add: handleEventsInBuffer_def win_handleEvents_def ERROR_ACCESS_DENIED_def
        ERROR_OPERATION_ABORTED_def ERROR_SUCCESS_def)

section \<open>Unregistering paths\<close>

text \<open>
  C7 (as amended).  \<open>unregisterPaths\<close> on macOS removes every path of the list (the
  keys afterwards are the keys before without the paths of the list), whatever the outcome;
  when it returns, it returns false if and only if some path of the list was not
  registered at the time of the call or the list names a path more than once; and it
  does return when Core Services can reopen the stream.  On Windows,
  \<open>unregisterPath\<close> returns nothing: it removes the entry of the long form of the path,
  and leaves the server unchanged when there is none.
\<close>

theorem unregisterPaths_result:
  "map fst (watchPoints (snd (unregisterPaths cs s paths)))
      = filter (\<lambda>k. k \<notin> set paths) (map fst (watchPoints s))
   \<and> (\<forall>b. fst (unregisterPaths cs s paths) = Inr b \<longrightarrow>
         (b = False) = ((\<exists>p\<in>set paths. p \<notin> fst ` set (watchPoints s)) \<or> \<not> distinct paths))
   \<and> (\<not> arrayCreateFails cs \<and> \<not> streamCreateFails cs \<and> (\<forall>p. \<not> stringCreateFails cs p) \<longrightarrow>
         (\<exists>b. fst (unregisterPaths cs s paths) = Inr b))
   \<and> map fst (win_watchPoints (unregisterPath ws p))
       = filter (\<lambda>k. k \<noteq> convertToLongPathIfNeeded p) (map fst (win_watchPoints ws))
   \<and> (map_of (win_watchPoints ws) (convertToLongPathIfNeeded p) = None \<longrightarrow> unregisterPath ws p = ws)"
proof -
  obtain r s1 where h: "unregisterPaths cs s paths = (r, s1)"
    by (cases "unregisterPaths cs s paths") auto
  note k = unregisterPaths_keys [OF h]
  have c: "\<exists>b. fst (unregisterPaths cs s paths) = Inr b"
    if "\<not> arrayCreateFails cs \<and> \<not> streamCreateFails cs \<and> (\<forall>p. \<not> stringCreateFails cs p)"
  proof -
    from unregisterPaths_parts [OF h] obtain s0 b0 r2 where
      op: "openEventStream cs s0 = (r2, s1)" and
      r: "r = (case r2 of Some ex \<Rightarrow> Inl ex | None \<Rightarrow> Inr b0)" by blast
    from that openEventStream_succeeds [of cs s0] op have "r2 = None" by simp
    with r h show ?thesis by simp
  qed
  show ?thesis using k h c unregisterPath_keys [of ws p] unregisterPath_unknown [of ws p]
    by simp
qed

text \<open>C7, witness: with \<open>/tmp/a\<close> and \<open>/tmp/b\<close> watched, unregistering \<open>/tmp/c\<close> and
  \<open>/tmp/a\<close> returns false and removes \<open>/tmp/a\<close>; unregistering \<open>/tmp/a\<close> alone
  returns true.\<close>

theorem unregisterPaths_result_witness:
  "fst (unregisterPaths
         \<lparr>pendingEvents = [], arrayCreateFails = False, stringCreateFails = (\<lambda>p. False),
           streamCreateFails = False\<rparr>
         \<lparr>watchPoints = [(u16 ''/tmp/a'', HISTORICAL), (u16 ''/tmp/b'', NEW)], lastSeenEventId = 5,
           finishedProcessingHistoricalEvents = True, eventStream = None\<rparr>
         [u16 ''/tmp/c'', u16 ''/tmp/a'']) = Inr False
   \<and> ((\<exists>p\<in>set [u16 ''/tmp/c'', u16 ''/tmp/a''].
          p \<notin> fst ` set (watchPoints
            \<lparr>watchPoints = [(u16 ''/tmp/a'', HISTORICAL), (u16 ''/tmp/b'', NEW)], lastSeenEventId = 5,
              finishedProcessingHistoricalEvents = True, eventStream = None\<rparr>))
        \<or> \<not> distinct [u16 ''/tmp/c'', u16 ''/tmp/a''])
   \<and> map fst (watchPoints (snd (unregisterPaths
         \<lparr>pendingEvents = [], arrayCreateFails = False, stringCreateFails = (\<lambda>p. False),
           streamCreateFails = False\<rparr>
         \<lparr>watchPoints = [(u16 ''/tmp/a'', HISTORICAL), (u16 ''/tmp/b'', NEW)], lastSeenEventId = 5,
           finishedProcessingHistoricalEvents = True, eventStream = None\<rparr>
         [u16 ''/tmp/c'', u16 ''/tmp/a''])))
       = filter (\<lambda>k. k \<notin> set [u16 ''/tmp/c'', u16 ''/tmp/a''])
           (map fst (watchPoints \<lparr>watchPoints = [(u16 ''/tmp/a'', HISTORICAL), (u16 ''/tmp/b'', NEW)],
              lastSeenEventId = 5, finishedProcessingHistoricalEvents = True, eventStream = None\<rparr>))
   \<and> (\<exists>b. fst (unregisterPaths
         \<lparr>pendingEvents = [], arrayCreateFails = False, stringCreateFails = (\<lambda>p. False),
           streamCreateFails = False\<rparr>
         \<lparr>watchPoints = [(u16 ''/tmp/a'', HISTORICAL), (u16 ''/tmp/b'', NEW)], lastSeenEventId = 5,
           finishedProcessingHistoricalEvents = True, eventStream = None\<rparr>
         [u16 ''/tmp/a'']) = Inr b)
   \<and> fst (unregisterPaths
         \<lparr>pendingEvents = [], arrayCreateFails = False, stringCreateFails = (\<lambda>p. False),
           streamCreateFails = False\<rparr>
         \<lparr>watchPoints = [(u16 ''/tmp/a'', HISTORICAL), (u16 ''/tmp/b'', NEW)], lastSeenEventId = 5,
           finishedProcessingHistoricalEvents = True, eventStream = None\<rparr>
         [u16 ''/tmp/a'']) = Inr True
   \<and> unregisterPath
         \<lparr>win_watchPoints = [([67, 58, BACKSLASH, 100], \<lparr>path = [67, 58, BACKSLASH, 100], status = LISTENING\<rparr>)],
           terminated = False\<rparr>
         [67, 58, BACKSLASH, 101]
       = \<lparr>win_watchPoints = [([67, 58, BACKSLASH, 100], \<lparr>path = [67, 58, BACKSLASH, 100], status = LISTENING\<rparr>)],
           terminated = False\<rparr>"
proof -
  let ?cs = "\<lparr>pendingEvents = [], arrayCreateFails = False, stringCreateFails = (\<lambda>p. False),
           streamCreateFails = False\<rparr>"
  let ?s = "\<lparr>watchPoints = [(u16 ''/tmp/a'', HISTORICAL), (u16 ''/tmp/b'', NEW)], lastSeenEventId = 5,
           finishedProcessingHistoricalEvents = True, eventStream = None\<rparr>"
  let ?l = "[u16 ''/tmp/c'', u16 ''/tmp/a'']"
  let ?w = "\<lparr>win_watchPoints = [([67, 58, BACKSLASH, 100], \<lparr>path = [67, 58, BACKSLASH, 100], status = LISTENING\<rparr>)],
           terminated = False\<rparr>"
  let ?e = "[67, 58, BACKSLASH, 101] :: u16string"
  have e1: "fst (unregisterPaths ?cs ?s ?l) = Inr False"
    by (simp add: unregisterPaths_def closeEventStream_def openEventStream_def erase_def
        erase_count_def u16_def kFSEventStreamEventIdSinceNow_def)
  have e2: "fst (unregisterPaths ?cs ?s [u16 ''/tmp/a'']) = Inr True"
    by (simp add: unregisterPaths_def closeEventStream_def openEventStream_def erase_def
        erase_count_def u16_def kFSEventStreamEventIdSinceNow_def)
  have o: "\<not> arrayCreateFails ?cs \<and> \<not> streamCreateFails ?cs \<and> (\<forall>p. \<not> stringCreateFails ?cs p)"
    by simp
  have u: "map_of (win_watchPoints ?w) (convertToLongPathIfNeeded ?e) = None"
    by (simp add: convertToLongPathIfNeeded_def)
  have k: "map fst (watchPoints (snd (unregisterPaths ?cs ?s ?l)))
       = filter (\<lambda>k. k \<notin> set ?l) (map fst (watchPoints ?s))"
    using unregisterPaths_result [where cs = ?cs and s = ?s and paths = ?l, THEN conjunct1] .
  have "(False = False) = ((\<exists>p\<in>set ?l. p \<notin> fst ` set (watchPoints ?s)) \<or> \<not> distinct ?l)"
    using unregisterPaths_result [where cs = ?cs and s = ?s and paths = ?l,
            THEN conjunct2, THEN conjunct1, THEN spec, THEN mp, OF e1] .
  then have d: "(\<exists>p\<in>set ?l. p \<notin> fst ` set (watchPoints ?s)) \<or> \<not> distinct ?l"
    by (simp only: simp_thms)
  have x: "\<exists>b. fst (unregisterPaths ?cs ?s [u16 ''/tmp/a'']) = Inr b"
    using unregisterPaths_result [where cs = ?cs and s = ?s and paths = "[u16 ''/tmp/a'']",
            THEN conjunct2, THEN conjunct2, THEN conjunct1, THEN mp, OF o] .
  have w: "unregisterPath ?w ?e = ?w"
    using unregisterPaths_result [where ws = ?w and p = ?e,
            THEN conjunct2, THEN conjunct2, THEN conjunct2, THEN conjunct2, THEN mp, OF u] .
  show ?thesis using e1 d k x e2 w by blast
qed

text \<open>C7, counterexample: a list that names a watched path twice.  Every path of the
  list was registered at the time of the call, and the result is false.\<close>

theorem unregisterPaths_duplicate_counterexample:
  "fst (unregisterPaths
         \<lparr>pendingEvents = [], arrayCreateFails = False, stringCreateFails = (\<lambda>p. False),
           streamCreateFails = False\<rparr>
         \<lparr>watchPoints = [(u16 ''/tmp/a'', HISTORICAL)], lastSeenEventId = 5,
           finishedProcessingHistoricalEvents = True, eventStream = None\<rparr>
         [u16 ''/tmp/a'', u16 ''/tmp/a'']) = Inr False
   \<and> set [u16 ''/tmp/a'', u16 ''/tmp/a'']
       \<subseteq> fst ` set (watchPoints \<lparr>watchPoints = [(u16 ''/tmp/a'', HISTORICAL)], lastSeenEventId = 5,
           finishedProcessingHistoricalEvents = True, eventStream = None\<rparr>)"
  by (simp add: unregisterPaths_def closeEventStream_def openEventStream_def erase_def
        erase_count_def)

section \<open>Executing a command\<close>

lemma execute_std:
  "fst (perform server) \<noteq> Some OtherObject \<Longrightarrow>
     fst (execute perform server c) = None
     \<and> executedNotified (fst (snd (execute perform server c))) = executedNotified c + 1
     \<and> (\<forall>ex. fst (perform server) = Some (StdException ex) \<longrightarrow>
            failure (fst (snd (execute perform server c))) = Some ex)
     \<and> (fst (perform server) = None \<longrightarrow>
            failure (fst (snd (execute perform server c))) = failure c)
     \<and> snd (snd (execute perform server c)) = snd (perform server)"
proof (cases "perform server")
  case (Pair r server1)
  assume h: "fst (perform server) \<noteq> Some OtherObject"
  show ?thesis
  proof (cases r)
    case None
    with Pair show ?thesis by (simp add: execute_def)
  next
    case (Some t)
    with Pair h show ?thesis by (cases t) (simp_all add: execute_def)
  qed
qed

lemma execute_observed:
  "fst (perform server) \<noteq> Some OtherObject \<Longrightarrow> failure c = None \<Longrightarrow>
     ((failure (fst (snd (execute perform server c))) = None) = (fst (perform server) = None))
     \<and> (\<forall>ex. (failure (fst (snd (execute perform server c))) = Some ex)
              = (fst (perform server) = Some (StdException ex)))"
proof (cases "perform server")
  case (Pair r server1)
  assume h: "fst (perform server) \<noteq> Some OtherObject" and f: "failure c = None"
  show ?thesis
  proof (cases r)
    case None
    with Pair f show ?thesis by (simp add: execute_def)
  next
    case (Some t)
    with Pair h f show ?thesis by (cases t) (auto simp: execute_def)
  qed
qed

lemma performOf_std: "fst (performOf operation server) \<noteq> Some OtherObject"
  by (cases "operation server") (auto simp: performOf_def split: sum.splits)

lemma performOf_failure:
  "failure (fst (snd (execute (performOf operation) server c)))
     = (case fst (operation server) of Inl ex \<Rightarrow> Some ex | Inr v \<Rightarrow> failure c)"
  by (cases "operation server") (auto simp: performOf_def execute_def split: sum.splits)

text \<open>
  C8.  \<^verbatim>\<open>Command::execute\<close> never propagates an exception: whatever \<^verbatim>\<open>perform\<close>
  does within the exceptions of C++ code (objects derived from \<^verbatim>\<open>std::exception\<close>, as
  every \<^verbatim>\<open>throw\<close> of the sources), nothing leaves \<^verbatim>\<open>execute\<close>, the completion
  signal is notified exactly once, an exception thrown by \<^verbatim>\<open>perform\<close> is in the
  failure slot afterwards, the slot is untouched when \<^verbatim>\<open>perform\<close> returns, and the
  server is as \<^verbatim>\<open>perform\<close> left it.  For a command submitted with an empty failure
  slot, what the submitter reads after the signal tells the two outcomes apart: the slot
  is empty exactly when \<^verbatim>\<open>perform\<close> returned, and holds an exception exactly when
  \<^verbatim>\<open>perform\<close> threw it.  For the commands of the header, whose \<^verbatim>\<open>perform\<close> calls an
  operation of the server, this holds without any condition.
\<close>

theorem execute_captures_std_exception:
  "(fst (perform server) \<noteq> Some OtherObject \<longrightarrow>
     fst (execute perform server c) = None
     \<and> executedNotified (fst (snd (execute perform server c))) = executedNotified c + 1
     \<and> (\<forall>ex. fst (perform server) = Some (StdException ex) \<longrightarrow>
            failure (fst (snd (execute perform server c))) = Some ex)
     \<and> (fst (perform server) = None \<longrightarrow>
            failure (fst (snd (execute perform server c))) = failure c)
     \<and> snd (snd (execute perform server c)) = snd (perform server)
     \<and> (failure c = None \<longrightarrow>
           ((failure (fst (snd (execute perform server c))) = None) = (fst (perform server) = None))
           \<and> (\<forall>ex. (failure (fst (snd (execute perform server c))) = Some ex)
                    = (fst (perform server) = Some (StdException ex)))))
   \<and> fst (execute (performOf operation) srv c) = None
   \<and> executedNotified (fst (snd (execute (performOf operation) srv c))) = executedNotified c + 1
   \<and> failure (fst (snd (execute (performOf operation) srv c)))
       = (case fst (operation srv) of Inl ex \<Rightarrow> Some ex | Inr v \<Rightarrow> failure c)"
proof -
  have a: "fst (execute perform server c) = None
     \<and> executedNotified (fst (snd (execute perform server c))) = executedNotified c + 1
     \<and> (\<forall>ex. fst (perform server) = Some (StdException ex) \<longrightarrow>
            failure (fst (snd (execute perform server c))) = Some ex)
     \<and> (fst (perform server) = None \<longrightarrow>
            failure (fst (snd (execute perform server c))) = failure c)
     \<and> snd (snd (execute perform server c)) = snd (perform server)
     \<and> (failure c = None \<longrightarrow>
           ((failure (fst (snd (execute perform server c))) = None) = (fst (perform server) = None))
           \<and> (\<forall>ex. (failure (fst (snd (execute perform server c))) = Some ex)
                    = (fst (perform server) = Some (StdException ex))))"
    if h: "fst (perform server) \<noteq> Some OtherObject"
    using execute_std [of perform server c] execute_observed [of perform server c] h by blast
  have b: "fst (execute (performOf operation) srv c) = None
     \<and> executedNotified (fst (snd (execute (performOf operation) srv c))) = executedNotified c + 1"
    using execute_std [of "performOf operation" srv c] performOf_std [of operation srv] by blast
  show ?thesis using a b performOf_failure [of operation srv c] by blast
qed

text \<open>C8, witness: a command whose \<^verbatim>\<open>perform\<close> throws the exception of an
  already watched path, one whose \<^verbatim>\<open>perform\<close> returns, and the command that
  registers an already watched path on the macOS server.\<close>

theorem execute_captures_std_exception_witness:
  "fst ((\<lambda>s :: nat. (Some (StdException (FileWatcherException ''Already watching path'' (Some (u16 ''/tmp/a'')) None)), s)) 0)
      \<noteq> Some OtherObject
   \<and> failure \<lparr>failure = None, executedNotified = 0\<rparr> = None
   \<and> execute (\<lambda>s :: nat. (Some (StdException (FileWatcherException ''Already watching path'' (Some (u16 ''/tmp/a'')) None)), s))
        0 \<lparr>failure = None, executedNotified = 0\<rparr>
      = (None,
         \<lparr>failure = Some (FileWatcherException ''Already watching path'' (Some (u16 ''/tmp/a'')) None),
           executedNotified = 1\<rparr>, 0)
   \<and> fst (execute (\<lambda>s :: nat. (Some (StdException (FileWatcherException ''Already watching path'' (Some (u16 ''/tmp/a'')) None)), s))
        0 \<lparr>failure = None, executedNotified = 0\<rparr>) = None
   \<and> failure (fst (snd (execute (\<lambda>s :: nat. (Some (StdException (FileWatcherException ''Already watching path'' (Some (u16 ''/tmp/a'')) None)), s))
        0 \<lparr>failure = None, executedNotified = 0\<rparr>)))
      = Some (FileWatcherException ''Already watching path'' (Some (u16 ''/tmp/a'')) None)
   \<and> fst ((\<lambda>s :: nat. (None :: thrown option, Suc s)) 0) = None
   \<and> failure (fst (snd (execute (\<lambda>s :: nat. (None, Suc s)) 0 \<lparr>failure = None, executedNotified = 0\<rparr>)))
      = failure \<lparr>failure = None, executedNotified = 0\<rparr>
   \<and> (failure (fst (snd (execute (\<lambda>s :: nat. (None, Suc s)) 0 \<lparr>failure = None, executedNotified = 0\<rparr>)))
        = None) = (fst ((\<lambda>s :: nat. (None :: thrown option, Suc s)) 0) = None)
   \<and> execute (\<lambda>s :: nat. (None, Suc s)) 0 \<lparr>failure = None, executedNotified = 0\<rparr>
      = (None, \<lparr>failure = None, executedNotified = 1\<rparr>, Suc 0)
   \<and> fst (execute
         (performOf (\<lambda>s. registerPaths
            \<lparr>pendingEvents = [], arrayCreateFails = False, stringCreateFails = (\<lambda>p. False),
              streamCreateFails = False\<rparr> s [u16 ''/tmp/a'']))
         \<lparr>watchPoints = [(u16 ''/tmp/a'', HISTORICAL)], lastSeenEventId = 5,
           finishedProcessingHistoricalEvents = True, eventStream = None\<rparr>
         \<lparr>failure = None, executedNotified = 0\<rparr>) = None
   \<and> fst (snd (execute
         (performOf (\<lambda>s. registerPaths
            \<lparr>pendingEvents = [], arrayCreateFails = False, stringCreateFails = (\<lambda>p. False),
              streamCreateFails = False\<rparr> s [u16 ''/tmp/a'']))
         \<lparr>watchPoints = [(u16 ''/tmp/a'', HISTORICAL)], lastSeenEventId = 5,
           finishedProcessingHistoricalEvents = True, eventStream = None\<rparr>
         \<lparr>failure = None, executedNotified = 0\<rparr>))
      = \<lparr>failure = Some (FileWatcherException ''Already watching path'' (Some (u16 ''/tmp/a'')) None),
          executedNotified = 1\<rparr>"
proof -
  let ?x = "FileWatcherException ''Already watching path'' (Some (u16 ''/tmp/a'')) None"
  let ?p = "\<lambda>s :: nat. (Some (StdException (FileWatcherException ''Already watching path'' (Some (u16 ''/tmp/a'')) None)), s)"
  let ?q = "\<lambda>s :: nat. (None :: thrown option, Suc s)"
  let ?c = "\<lparr>failure = None, executedNotified = 0\<rparr>"
  let ?op = "\<lambda>s. registerPaths
            \<lparr>pendingEvents = [], arrayCreateFails = False, stringCreateFails = (\<lambda>p. False),
              streamCreateFails = False\<rparr> s [u16 ''/tmp/a'']"
  let ?srv = "\<lparr>watchPoints = [(u16 ''/tmp/a'', HISTORICAL)], lastSeenEventId = 5,
           finishedProcessingHistoricalEvents = True, eventStream = None\<rparr>"
  have h: "fst (?p 0) \<noteq> Some OtherObject" by simp
  have f: "fst (?p 0) = Some (StdException ?x)" by simp
  have g: "fst (?q 0) \<noteq> Some OtherObject" by simp
  have gn: "fst (?q 0) = None" by simp
  have fr: "failure ?c = None" by simp
  have e: "execute ?p 0 ?c = (None, \<lparr>failure = Some ?x, executedNotified = 1\<rparr>, 0)"
    by (simp add: execute_def)
  have e2: "execute ?q 0 ?c = (None, \<lparr>failure = None, executedNotified = 1\<rparr>, Suc 0)"
    by (simp add: execute_def)
  note tp = execute_captures_std_exception [where perform = ?p and server = 0 and c = ?c,
              THEN conjunct1, THEN mp, OF h]
  note tq = execute_captures_std_exception [where perform = ?q and server = 0 and c = ?c,
              THEN conjunct1, THEN mp, OF g]
  have n: "fst (execute ?p 0 ?c) = None"
    using tp [THEN conjunct1] .
  have fl: "failure (fst (snd (execute ?p 0 ?c))) = Some ?x"
    using tp [THEN conjunct2, THEN conjunct2, THEN conjunct1, THEN spec, THEN mp, OF f] .
  have fu: "failure (fst (snd (execute ?q 0 ?c))) = failure ?c"
    using tq [THEN conjunct2, THEN conjunct2, THEN conjunct2, THEN conjunct1, THEN mp, OF gn] .
  have ob: "(failure (fst (snd (execute ?q 0 ?c))) = None) = (fst (?q 0) = None)"
    using tq [THEN conjunct2, THEN conjunct2, THEN conjunct2, THEN conjunct2, THEN conjunct2,
              THEN mp, OF fr, THEN conjunct1] .
  have rn: "fst (execute (performOf ?op) ?srv ?c) = None"
    using execute_captures_std_exception [where operation = ?op and srv = ?srv and c = ?c,
            THEN conjunct2, THEN conjunct1] .
  have rc: "fst (snd (execute (performOf ?op) ?srv ?c))
      = \<lparr>failure = Some ?x, executedNotified = 1\<rparr>"
    by (simp add: execute_def performOf_def registerPaths_def closeEventStream_def)
  show ?thesis using h fr e n fl gn fu ob e2 rn rc by blast
qed

section \<open>The event stream and the set of watch points\<close>

text \<open>
  Both commands close the stream first and open it again last.  \<open>openEventStream\<close> does
  nothing when the map of watch points is empty.  After a register or unregister
  command that returns, the server holds an event stream if and only if the map of watch
  points is not empty; unregistering a list that covers every watched path always
  returns, and leaves the server with no watch point and no event stream.
\<close>

lemma eventStream_after_success:
  "(watchPoints s = [] \<longrightarrow> openEventStream cs s = (None, s))
   \<and> (\<forall>b. fst (registerPaths cs s paths) = Inr b \<longrightarrow>
         (eventStream (snd (registerPaths cs s paths)) \<noteq> None)
           = (watchPoints (snd (registerPaths cs s paths)) \<noteq> []))
   \<and> (\<forall>b. fst (unregisterPaths cs s paths) = Inr b \<longrightarrow>
         (eventStream (snd (unregisterPaths cs s paths)) \<noteq> None)
           = (watchPoints (snd (unregisterPaths cs s paths)) \<noteq> []))
   \<and> (set (map fst (watchPoints s)) \<subseteq> set paths \<longrightarrow>
         (\<exists>b. fst (unregisterPaths cs s paths) = Inr b)
         \<and> watchPoints (snd (unregisterPaths cs s paths)) = []
         \<and> eventStream (snd (unregisterPaths cs s paths)) = None)"
proof -
  have a: "openEventStream cs s = (None, s)" if "watchPoints s = []"
    using that by (rule openEventStream_empty)
  have b: "(eventStream (snd (registerPaths cs s paths)) \<noteq> None)
           = (watchPoints (snd (registerPaths cs s paths)) \<noteq> [])"
    if "fst (registerPaths cs s paths) = Inr b" for b
    using that registerPaths_stream [of cs s paths b "snd (registerPaths cs s paths)"]
    by (cases "registerPaths cs s paths") simp
  have c: "(eventStream (snd (unregisterPaths cs s paths)) \<noteq> None)
           = (watchPoints (snd (unregisterPaths cs s paths)) \<noteq> [])"
    if "fst (unregisterPaths cs s paths) = Inr b" for b
    using that unregisterPaths_stream [of cs s paths b "snd (unregisterPaths cs s paths)"]
    by (cases "unregisterPaths cs s paths") simp
  show ?thesis using a b c unregisterPaths_last [of s paths cs] by blast
qed

text \<open>
  C10.  After a register or unregister command completes, the server should hold an
  event stream exactly when it has watch points.  \<open>registerPaths\<close> closes the stream
  before its loop and opens it again after it, but the exception for an already watched
  path leaves the loop in between: registering \<open>/tmp/a\<close> a second time ends with that
  exception and leaves the server with the watch point \<open>/tmp/a\<close> and without event
  stream.  \<open>unregisterPaths\<close>, which cannot throw in its loop, reopens the stream on
  the same server even when it misses a path.
\<close>

theorem registerPaths_already_watched_drops_stream:
  "registerPaths
         \<lparr>pendingEvents = [], arrayCreateFails = False, stringCreateFails = (\<lambda>p. False),
           streamCreateFails = False\<rparr>
         \<lparr>watchPoints = [(u16 ''/tmp/a'', HISTORICAL)], lastSeenEventId = 5,
           finishedProcessingHistoricalEvents = True,
           eventStream = Some \<lparr>streamPaths = [u16 ''/tmp/a''], sinceWhen = 5\<rparr>\<rparr>
         [u16 ''/tmp/a'']
       = (Inl (FileWatcherException ''Already watching path'' (Some (u16 ''/tmp/a'')) None),
          \<lparr>watchPoints = [(u16 ''/tmp/a'', HISTORICAL)], lastSeenEventId = 5,
           finishedProcessingHistoricalEvents = True, eventStream = None\<rparr>)
   \<and> unregisterPaths
         \<lparr>pendingEvents = [], arrayCreateFails = False, stringCreateFails = (\<lambda>p. False),
           streamCreateFails = False\<rparr>
         \<lparr>watchPoints = [(u16 ''/tmp/a'', HISTORICAL)], lastSeenEventId = 5,
           finishedProcessingHistoricalEvents = True,
           eventStream = Some \<lparr>streamPaths = [u16 ''/tmp/a''], sinceWhen = 5\<rparr>\<rparr>
         [u16 ''/tmp/b'']
       = (Inr False,
          \<lparr>watchPoints = [(u16 ''/tmp/a'', HISTORICAL)], lastSeenEventId = 5,
           finishedProcessingHistoricalEvents = False,
           eventStream = Some \<lparr>streamPaths = [u16 ''/tmp/a''], sinceWhen = 5\<rparr>\<rparr>)"
  by (simp add: registerPaths_def unregisterPaths_def closeEventStream_def openEventStream_def
        erase_def erase_count_def u16_def kFSEventStreamEventIdSinceNow_def)

end
